theory Spec2Isabelle
  imports Main "HOL-Library.Code_Target_Nat"
begin

section \<open>The workflow state manager of siren\<close>

text \<open>
  A shallow embedding of the class \<open>StateManager\<close> (the state-manager part of
  \<open>src/main.tsx\<close>). The mutable field \<open>this.state\<close> is passed explicitly: every
  method takes the state and returns the new one. A method that can throw returns a sum,
  \<open>Inl\<close> carrying the error. The three network calls are parameters: the outcome of each
  \<open>fetch\<close> is a value of type \<open>response\<close>, and the clock is the string \<open>now\<close>.

  Coordinates and sizes are \<open>int\<close> and array indices \<open>nat\<close>: the arithmetic of the code on
  them (one addition, one multiplication, \<open>%\<close> and \<open>Math.floor\<close> of a quotient on indices
  below the greatest array length) is exact on doubles. The numbers the node ids are
  computed from are doubles of any size, and are modelled as such: an integer value that a
  double can hold, or an infinity (type \<open>number\<close>). Strings are lists of 8-bit characters.
\<close>

subsection \<open>Data model\<close>

record Position =
  pos_x :: int
  pos_y :: int

record Size =
  width :: int
  height :: int

record MinDimensions =
  min_width :: int
  min_height :: int
  collapsedWidth :: int
  collapsedHeight :: int

record NodeData =
  label :: string
  markdownPath :: string

text \<open>
  \<open>interface NodeState\<close>. The fields \<open>id\<close> and \<open>size\<close> are \<open>node_id\<close> and
  \<open>node_size\<close> here; the optional fields \<open>expandedSize?\<close> and \<open>isOrphaned?\<close> are options,
  \<open>None\<close> standing for \<open>undefined\<close>.
\<close>

record NodeState =
  node_id :: string
  position :: Position
  node_size :: Size
  isCollapsed :: bool
  expandedSize :: "Size option"
  minDimensions :: MinDimensions
  data :: NodeData
  isOrphaned :: "bool option"

record Edge =
  edge_id :: string
  source :: string
  target :: string

record WorkflowState =
  nodes :: "NodeState list"
  edges :: "Edge list"
  lastSaved :: string
  version :: string

text \<open>The React Flow node built by \<open>toReactFlowNodes\<close>.\<close>

record FlowNode =
  flow_id :: string
  flow_type :: string
  flow_position :: Position
  flow_style :: Size
  flow_data :: NodeData

datatype error =
    NodeNotFound string
  | SaveFailed string

text \<open>
  The outcome of a \<open>fetch\<close> followed by \<open>response.json()\<close>: the parsed body when
  \<open>response.ok\<close>, the status and status text otherwise, or a rejected promise.
\<close>

datatype 'a response =
    Ok 'a
  | NotOk nat string
  | Rejected string

text \<open>
  What a call depends on besides the state: the outcomes of the three fetches, the clock,
  and how the engine prints an integer beyond \<open>2^53\<close> (ECMAScript does not fix every digit
  of \<open>Number.prototype.toString\<close> there).
\<close>

record env =
  config_response :: "WorkflowState response"
  files_response :: "string list response"
  save_response :: "unit response"
  now :: string
  largeToString :: "int \<Rightarrow> string"

definition initial_state :: WorkflowState where
  "initial_state = \<lparr>nodes = [], edges = [], lastSaved = [], version = ''1.0.0''\<rparr>"

subsection \<open>Array helpers\<close>

text \<open>
  \<open>arr.find(p)\<close> is \<^const>\<open>find\<close>. The code then assigns to fields of the object found,
  which changes the first matching element of the array in place.
\<close>

fun update_first :: "('a \<Rightarrow> bool) \<Rightarrow> ('a \<Rightarrow> 'a) \<Rightarrow> 'a list \<Rightarrow> 'a list" where
  "update_first p f [] = []"
| "update_first p f (a # as) = (if p a then f a # as else a # update_first p f as)"

text \<open>\<open>findIndex\<close> followed by \<open>splice(index, 1)\<close>: the first matching element is removed.\<close>

fun remove_first :: "('a \<Rightarrow> bool) \<Rightarrow> 'a list \<Rightarrow> 'a list" where
  "remove_first p [] = []"
| "remove_first p (a # as) = (if p a then as else a # remove_first p as)"

subsection \<open>Numbers\<close>

text \<open>
  The doubles that occur as ids: \<open>parseInt\<close> returns an integer valued double, an
  infinity or \<open>NaN\<close>, and \<open>NaN\<close> is filtered out before any arithmetic. \<open>Fin i\<close> is the
  double of value \<open>i\<close> (minus zero is \<open>Fin 0\<close>: it prints and adds as zero).
\<close>

datatype number = Fin int | PosInf | NegInf

fun bitLength :: "nat \<Rightarrow> nat" where
  "bitLength n = (if n = 0 then 0 else Suc (bitLength (n div 2)))"

declare bitLength.simps [simp del]

text \<open>
  The double nearest to an integer, ties to the even mantissa. Every integer up to
  \<open>2^53\<close> in absolute value is a double; a larger one keeps its 53 leading bits, rounded,
  and becomes an infinity when the rounded value reaches \<open>2^1024\<close>.
\<close>

definition roundDouble :: "int \<Rightarrow> number" where
  "roundDouble i =
     (if \<bar>i\<bar> \<le> 2 ^ 53 then Fin i
      else
        (let a = nat \<bar>i\<bar>;
             e = bitLength a - 53;
             q = a div 2 ^ e;
             r = a mod 2 ^ e;
             q' = (if 2 * r > 2 ^ e \<or> (2 * r = 2 ^ e \<and> odd q) then q + 1 else q);
             m = q' * 2 ^ e
         in if m \<ge> 2 ^ 1024 then (if i < 0 then NegInf else PosInf)
            else Fin (sgn i * int m)))"

text \<open>\<open>x + b\<close> for a number \<open>x\<close> and an integer \<open>b\<close> that is a double (1, or a loop index).\<close>

definition addInt :: "number \<Rightarrow> int \<Rightarrow> number" where
  "addInt x b = (case x of Fin a \<Rightarrow> roundDouble (a + b) | PosInf \<Rightarrow> PosInf | NegInf \<Rightarrow> NegInf)"

fun lessNumber :: "number \<Rightarrow> number \<Rightarrow> bool" where
  "lessNumber (Fin a) (Fin b) = (a < b)"
| "lessNumber (Fin a) PosInf = True"
| "lessNumber NegInf (Fin b) = True"
| "lessNumber NegInf PosInf = True"
| "lessNumber x y = False"

definition maxNumber :: "number \<Rightarrow> number \<Rightarrow> number" where
  "maxNumber x y = (if lessNumber x y then y else x)"

text \<open>\<open>Math.max(...xs)\<close>: the greatest argument, \<open>-Infinity\<close> for none.\<close>

definition Math_max :: "number list \<Rightarrow> number" where
  "Math_max xs = fold maxNumber xs NegInf"

subsection \<open>parseInt and Number.prototype.toString\<close>

definition isWhiteSpace :: "char \<Rightarrow> bool" where
  "isWhiteSpace c = ((of_char c :: nat) \<in> {9, 10, 11, 12, 13, 32, 160})"

text \<open>The value of a digit in any radix up to 36; 36 for a character that is no digit.\<close>

definition digitValue :: "char \<Rightarrow> nat" where
  "digitValue c =
     (let n = (of_char c :: nat) in
      if 48 \<le> n \<and> n \<le> 57 then n - 48
      else if 97 \<le> n \<and> n \<le> 122 then n - 87
      else if 65 \<le> n \<and> n \<le> 90 then n - 55
      else 36)"

definition radixValue :: "nat \<Rightarrow> string \<Rightarrow> nat" where
  "radixValue R Z = foldl (\<lambda>a c. a * R + digitValue c) 0 Z"

text \<open>
  \<open>parseInt(s)\<close> with no radix: leading white space is skipped, a sign is read, a prefix
  \<open>0x\<close> or \<open>0X\<close> selects radix 16, and the longest prefix of digits is the value; what
  follows the digits is ignored. \<open>None\<close> is \<open>NaN\<close>. The result is the double nearest to
  the value of the digits (for more than 20 significant decimal digits ECMAScript allows an
  approximation of the value; the exact value is taken here, as V8 does).
\<close>

definition parseDigits :: "int \<Rightarrow> nat \<Rightarrow> string \<Rightarrow> number option" where
  "parseDigits sign R s =
     (let Z = takeWhile (\<lambda>c. digitValue c < R) s in
      if Z = [] then None else Some (roundDouble (sign * int (radixValue R Z))))"

fun parseRadix :: "int \<Rightarrow> string \<Rightarrow> number option" where
  "parseRadix sign (a # b # s) =
     (if a = CHR ''0'' \<and> (b = CHR ''x'' \<or> b = CHR ''X'') then parseDigits sign 16 s
      else parseDigits sign 10 (a # b # s))"
| "parseRadix sign s = parseDigits sign 10 s"

fun parseSign :: "string \<Rightarrow> number option" where
  "parseSign [] = parseRadix 1 []"
| "parseSign (a # s) =
     (if a = CHR ''-'' then parseRadix (- 1) s
      else if a = CHR ''+'' then parseRadix 1 s
      else parseRadix 1 (a # s))"

definition parseInt :: "string \<Rightarrow> number option" where
  "parseInt s = parseSign (dropWhile isWhiteSpace s)"

definition digitChar :: "nat \<Rightarrow> char" where
  "digitChar d = char_of (48 + d)"

fun decimal :: "nat \<Rightarrow> string" where
  "decimal n = (if n < 10 then [digitChar n] else decimal (n div 10) @ [digitChar (n mod 10)])"

declare decimal.simps [simp del]

text \<open>The decimal digits of an integer, with its sign.\<close>

definition showInt :: "int \<Rightarrow> string" where
  "showInt i = (if i < 0 then CHR ''-'' # decimal (nat (- i)) else decimal (nat i))"

text \<open>
  \<open>x.toString()\<close>. An integer up to \<open>2^53\<close> in absolute value prints as its digits. Beyond
  that the engine prints the shortest digits that read back as the same double, padded
  with zeros, or exponent notation from \<open>1e21\<close>; this is the parameter \<open>large\<close>.
\<close>

definition toString :: "(int \<Rightarrow> string) \<Rightarrow> number \<Rightarrow> string" where
  "toString large x =
     (case x of
        Fin i \<Rightarrow> if \<bar>i\<bar> \<le> 2 ^ 53 then showInt i else large i
      | PosInf \<Rightarrow> ''Infinity''
      | NegInf \<Rightarrow> ''-Infinity'')"

subsection \<open>Node operations\<close>

definition hasId :: "string \<Rightarrow> NodeState \<Rightarrow> bool" where
  "hasId nodeId n = (node_id n = nodeId)"

definition getNodeState :: "string \<Rightarrow> WorkflowState \<Rightarrow> NodeState option" where
  "getNodeState nodeId s = find (hasId nodeId) (nodes s)"

definition updateNodePosition :: "string \<Rightarrow> Position \<Rightarrow> WorkflowState \<Rightarrow> error + WorkflowState" where
  "updateNodePosition nodeId pos s =
     (case find (hasId nodeId) (nodes s) of
        None \<Rightarrow> Inr s
      | Some nodeState \<Rightarrow>
          Inr (s\<lparr>nodes := update_first (hasId nodeId) (\<lambda>n. n\<lparr>position := pos\<rparr>) (nodes s)\<rparr>))"

definition resizeNode :: "Size \<Rightarrow> NodeState \<Rightarrow> NodeState" where
  "resizeNode sz n =
     (let n1 = n\<lparr>node_size := sz\<rparr> in
      if \<not> isCollapsed n1 then n1\<lparr>expandedSize := Some sz\<rparr> else n1)"

definition updateNodeSize :: "string \<Rightarrow> Size \<Rightarrow> WorkflowState \<Rightarrow> error + WorkflowState" where
  "updateNodeSize nodeId sz s =
     (case find (hasId nodeId) (nodes s) of
        None \<Rightarrow> Inr s
      | Some nodeState \<Rightarrow>
          Inr (s\<lparr>nodes := update_first (hasId nodeId) (resizeNode sz) (nodes s)\<rparr>))"

definition updateNodeMinDimensions ::
  "string \<Rightarrow> MinDimensions \<Rightarrow> WorkflowState \<Rightarrow> error + WorkflowState" where
  "updateNodeMinDimensions nodeId md s =
     (case find (hasId nodeId) (nodes s) of
        None \<Rightarrow> Inr s
      | Some nodeState \<Rightarrow>
          Inr (s\<lparr>nodes := update_first (hasId nodeId) (\<lambda>n. n\<lparr>minDimensions := md\<rparr>) (nodes s)\<rparr>))"

text \<open>
  The body of \<open>toggleNodeCollapse\<close> on the node found: the new size and the node after
  the three assignments.
\<close>

definition toggleSize :: "NodeState \<Rightarrow> Size" where
  "toggleSize n =
     (if \<not> isCollapsed n
      then \<lparr>width = collapsedWidth (minDimensions n), height = collapsedHeight (minDimensions n)\<rparr>
      else (case expandedSize n of
              Some sz \<Rightarrow> sz
            | None \<Rightarrow> \<lparr>width = min_width (minDimensions n), height = min_height (minDimensions n)\<rparr>))"

definition toggleNode :: "NodeState \<Rightarrow> NodeState" where
  "toggleNode n =
     (let wasCollapsed = isCollapsed n;
          n1 = n\<lparr>isCollapsed := \<not> wasCollapsed\<rparr>;
          n2 = (if isCollapsed n1 then n1\<lparr>expandedSize := Some (node_size n1)\<rparr> else n1)
      in n2\<lparr>node_size := toggleSize n\<rparr>)"

definition toggleNodeCollapse ::
  "string \<Rightarrow> WorkflowState \<Rightarrow> error + ((Size \<times> bool) \<times> WorkflowState)" where
  "toggleNodeCollapse nodeId s =
     (case find (hasId nodeId) (nodes s) of
        None \<Rightarrow> Inl (NodeNotFound nodeId)
      | Some nodeState \<Rightarrow>
          Inr ((toggleSize nodeState, isCollapsed (toggleNode nodeState)),
               s\<lparr>nodes := update_first (hasId nodeId) toggleNode (nodes s)\<rparr>))"

definition removeNode :: "string \<Rightarrow> WorkflowState \<Rightarrow> error + WorkflowState" where
  "removeNode nodeId s =
     (case find (hasId nodeId) (nodes s) of
        None \<Rightarrow> Inr s
      | Some node \<Rightarrow> Inr (s\<lparr>nodes := remove_first (hasId nodeId) (nodes s)\<rparr>))"

definition removeOrphanedNodes :: "WorkflowState \<Rightarrow> nat \<times> WorkflowState" where
  "removeOrphanedNodes s =
     (let kept = filter (\<lambda>n. isOrphaned n \<noteq> Some True) (nodes s)
      in (length (nodes s) - length kept, s\<lparr>nodes := kept\<rparr>))"

definition toReactFlowNodes :: "WorkflowState \<Rightarrow> FlowNode list" where
  "toReactFlowNodes s =
     map (\<lambda>n. \<lparr>flow_id = node_id n, flow_type = ''workflowNode'', flow_position = position n,
               flow_style = node_size n, flow_data = data n\<rparr>) (nodes s)"

subsection \<open>The network calls\<close>

text \<open>
  \<open>loadWorkflowConfig\<close> and \<open>enumerateMarkdownFiles\<close> catch every failure, log it and
  return \<open>null\<close>, respectively the empty array; \<open>saveWorkflowConfig\<close> logs and rethrows.
\<close>

definition loadWorkflowConfig :: "WorkflowState response \<Rightarrow> WorkflowState option" where
  "loadWorkflowConfig r = (case r of Ok config \<Rightarrow> Some config | NotOk st txt \<Rightarrow> None | Rejected msg \<Rightarrow> None)"

definition enumerateMarkdownFiles :: "string list response \<Rightarrow> string list" where
  "enumerateMarkdownFiles r = (case r of Ok files \<Rightarrow> files | NotOk st txt \<Rightarrow> [] | Rejected msg \<Rightarrow> [])"

definition saveWorkflowConfig :: "unit response \<Rightarrow> WorkflowState \<Rightarrow> error + unit" where
  "saveWorkflowConfig r config =
     (case r of
        Ok u \<Rightarrow> Inr ()
      | NotOk st txt \<Rightarrow> Inl (SaveFailed (''Failed to save workflow config: '' @ txt))
      | Rejected msg \<Rightarrow> Inl (SaveFailed msg))"

subsection \<open>Grid position and label\<close>

definition calculateGridPosition :: "nat \<Rightarrow> int \<Rightarrow> int \<Rightarrow> Position" where
  "calculateGridPosition index nodeWidth nodeHeight =
     (let cols = 3; paddingX = 50; paddingY = 50;
          col = index mod cols;
          row = index div cols
      in \<lparr>pos_x = paddingX + int col * (nodeWidth + paddingX),
          pos_y = paddingY + int row * (nodeHeight + paddingY)\<rparr>)"

fun split_on :: "char \<Rightarrow> string \<Rightarrow> string list" where
  "split_on c [] = [] # []"
| "split_on c (a # as) =
     (if a = c then [] # split_on c as
      else (case split_on c as of [] \<Rightarrow> [a] # [] | w # ws \<Rightarrow> (a # w) # ws))"

fun join_with :: "string \<Rightarrow> string list \<Rightarrow> string" where
  "join_with sep [] = []"
| "join_with sep [w] = w"
| "join_with sep (w # ws) = w @ sep @ join_with sep ws"

text \<open>
  \<open>toUpperCase\<close> on one character of Latin-1: the letters \<open>a\<close> to \<open>z\<close> and those from
  U+00E0 to U+00FE (but the division sign U+00F7) have their capital 32 below, and U+00DF
  becomes \<open>SS\<close>. The capitals of U+00B5 and U+00FF lie outside Latin-1 and cannot be
  written with 8-bit characters: these two are kept.
\<close>

definition toUpperCase :: "char \<Rightarrow> string" where
  "toUpperCase c =
     (let n = (of_char c :: nat) in
      if 97 \<le> n \<and> n \<le> 122 then [char_of (n - 32)]
      else if 224 \<le> n \<and> n \<le> 254 \<and> n \<noteq> 247 then [char_of (n - 32)]
      else if n = 223 then ''SS''
      else [c])"

definition capitalize :: "string \<Rightarrow> string" where
  "capitalize w = (case w of [] \<Rightarrow> [] | c # cs \<Rightarrow> toUpperCase c @ cs)"

definition stripMd :: "string \<Rightarrow> string" where
  "stripMd f =
     (if 3 \<le> length f \<and> drop (length f - 3) f = ''.md'' then take (length f - 3) f else f)"

definition generateLabelFromFilename :: "string \<Rightarrow> string" where
  "generateLabelFromFilename filename =
     join_with '' '' (map capitalize (split_on (CHR ''-'') (stripMd filename)))"

subsection \<open>Reconciliation\<close>

definition workflowPath :: "string \<Rightarrow> string" where
  "workflowPath file = ''/workflows/'' @ file"

definition newNode :: "string \<Rightarrow> Position \<Rightarrow> string \<Rightarrow> NodeState" where
  "newNode nodeId pos file =
     \<lparr>node_id = nodeId,
      position = pos,
      node_size = \<lparr>width = 250, height = 200\<rparr>,
      isCollapsed = True,
      expandedSize = None,
      minDimensions = \<lparr>min_width = 250, min_height = 200, collapsedWidth = 180, collapsedHeight = 50\<rparr>,
      data = \<lparr>label = generateLabelFromFilename file, markdownPath = workflowPath file\<rparr>,
      isOrphaned = Some False\<rparr>"

text \<open>
  \<open>newFiles.forEach((file, index) => ...)\<close>: the callback reads the length of the node
  array it pushes to, so the array is the accumulator of the loop.
\<close>

fun addNewNodes ::
  "(int \<Rightarrow> string) \<Rightarrow> number \<Rightarrow> nat \<Rightarrow> string list \<Rightarrow> NodeState list \<Rightarrow> NodeState list" where
  "addNewNodes large nextNodeId index [] ns = ns"
| "addNewNodes large nextNodeId index (file # files) ns =
     (let nodeId = toString large (addInt nextNodeId (int index));
          pos = calculateGridPosition (length ns + index) 250 200
      in addNewNodes large nextNodeId (Suc index) files (ns @ [newNode nodeId pos file]))"

definition existingIds :: "NodeState list \<Rightarrow> number list" where
  "existingIds ns = List.map_filter (\<lambda>n. parseInt (node_id n)) ns"

definition nextNodeIdOf :: "NodeState list \<Rightarrow> number" where
  "nextNodeIdOf ns =
     (if length (existingIds ns) > 0 then addInt (Math_max (existingIds ns)) 1 else Fin 1)"

text \<open>The availability pass: \<open>node.isOrphaned = !existingFiles.has(node.data.markdownPath)\<close>.\<close>

definition markOrphaned :: "string list \<Rightarrow> NodeState list \<Rightarrow> NodeState list" where
  "markOrphaned markdownFiles ns =
     map (\<lambda>n. n\<lparr>isOrphaned := Some (markdownPath (data n) \<notin> set (map workflowPath markdownFiles))\<rparr>) ns"

definition newFilesOf :: "string list \<Rightarrow> NodeState list \<Rightarrow> string list" where
  "newFilesOf markdownFiles ns =
     filter (\<lambda>file. workflowPath file \<notin> set (map (\<lambda>n. markdownPath (data n)) ns)) markdownFiles"

definition initializeWorkflowState ::
  "env \<Rightarrow> WorkflowState \<Rightarrow> (error + (FlowNode list \<times> Edge list)) \<times> WorkflowState" where
  "initializeWorkflowState e s =
     (let existingConfig = loadWorkflowConfig (config_response e);
          markdownFiles = enumerateMarkdownFiles (files_response e);
          nodes0 = (case existingConfig of None \<Rightarrow> [] | Some c \<Rightarrow> nodes c);
          edges0 = (case existingConfig of None \<Rightarrow> [] | Some c \<Rightarrow> edges c);
          nextNodeId = (case existingConfig of None \<Rightarrow> Fin 1 | Some c \<Rightarrow> nextNodeIdOf (nodes c));
          nodes1 = markOrphaned markdownFiles nodes0;
          newFiles = newFilesOf markdownFiles nodes1
      in if length newFiles > 0 then
           (let nodes2 = addNewNodes (largeToString e) nextNodeId 0 newFiles nodes1;
                s' = \<lparr>nodes = nodes2, edges = edges0, lastSaved = now e, version = ''1.0.0''\<rparr>
            in case saveWorkflowConfig (save_response e) s' of
                 Inl err \<Rightarrow> (Inl err, s)
               | Inr u \<Rightarrow> (Inr (toReactFlowNodes s', edges0), s'))
         else
           (let s' = \<lparr>nodes = nodes1, edges = edges0, lastSaved = now e, version = ''1.0.0''\<rparr>
            in (Inr (toReactFlowNodes s', edges0), s')))"

record ReEnumerateResult =
  res_nodes :: "FlowNode list"
  res_edges :: "Edge list"
  newNodes :: nat
  recoveredNodes :: nat

definition reEnumerateMarkdownFiles ::
  "env \<Rightarrow> WorkflowState \<Rightarrow> (error + ReEnumerateResult) \<times> WorkflowState" where
  "reEnumerateMarkdownFiles e s =
     (let markdownFiles = enumerateMarkdownFiles (files_response e);
          nodes1 = markOrphaned markdownFiles (nodes s);
          recovered = length (filter (\<lambda>n. isOrphaned n = Some True
                         \<and> markdownPath (data n) \<in> set (map workflowPath markdownFiles)) (nodes s));
          newFiles = newFilesOf markdownFiles nodes1;
          nodes2 = (if length newFiles > 0
                    then addNewNodes (largeToString e) (nextNodeIdOf nodes1) 0 newFiles nodes1
                    else nodes1);
          s' = s\<lparr>nodes := nodes2, lastSaved := now e\<rparr>
      in case saveWorkflowConfig (save_response e) s' of
           Inl err \<Rightarrow> (Inl err, s')
         | Inr u \<Rightarrow> (Inr \<lparr>res_nodes = toReactFlowNodes s', res_edges = edges s',
                         newNodes = length newFiles, recoveredNodes = recovered\<rparr>, s'))"

subsection \<open>Example inputs\<close>

definition defaultMinDimensions :: MinDimensions where
  "defaultMinDimensions = \<lparr>min_width = 250, min_height = 200, collapsedWidth = 180, collapsedHeight = 50\<rparr>"

text \<open>An expanded node of size 300 by 250, for the document \<open>x.md\<close>.\<close>

definition sample_node :: NodeState where
  "sample_node =
     \<lparr>node_id = ''1'', position = \<lparr>pos_x = 50, pos_y = 50\<rparr>,
      node_size = \<lparr>width = 300, height = 250\<rparr>, isCollapsed = False, expandedSize = None,
      minDimensions = defaultMinDimensions,
      data = \<lparr>label = ''X'', markdownPath = ''/workflows/x.md''\<rparr>, isOrphaned = Some False\<rparr>"

definition sample_state :: WorkflowState where
  "sample_state = \<lparr>nodes = [sample_node], edges = [], lastSaved = [], version = ''1.0.0''\<rparr>"

text \<open>\<open>response.ok\<close> of a fetch that did not reject.\<close>

definition isOk :: "'a response \<Rightarrow> bool" where
  "isOk r = (case r of Ok a \<Rightarrow> True | NotOk st txt \<Rightarrow> False | Rejected msg \<Rightarrow> False)"

text \<open>A collapsed node that remembers the expanded size 300 by 250, for \<open>y.md\<close>.\<close>

definition collapsed_node :: NodeState where
  "collapsed_node =
     \<lparr>node_id = ''2'', position = \<lparr>pos_x = 350, pos_y = 50\<rparr>,
      node_size = \<lparr>width = 180, height = 50\<rparr>, isCollapsed = True,
      expandedSize = Some \<lparr>width = 300, height = 250\<rparr>,
      minDimensions = defaultMinDimensions,
      data = \<lparr>label = ''Y'', markdownPath = ''/workflows/y.md''\<rparr>, isOrphaned = Some False\<rparr>"

definition collapsed_state :: WorkflowState where
  "collapsed_state = \<lparr>nodes = [sample_node, collapsed_node], edges = [], lastSaved = [], version = ''1.0.0''\<rparr>"

text \<open>
  Environments: the listing call rejects; no config file and four documents; the same with
  a failing write; a rescan that finds \<open>y.md\<close> and the new \<open>z.md\<close> but no \<open>x.md\<close>;
  and the run after that rescan, which loads what the rescan produced. No number beyond
  \<open>2^53\<close> is printed in them, so any \<open>largeToString\<close> does.
\<close>

definition env_listing_down :: env where
  "env_listing_down =
     \<lparr>config_response = Ok sample_state, files_response = Rejected ''Failed to fetch'',
      save_response = Ok (), now = ''2025-01-01T00:00:00.000Z'',
      largeToString = showInt\<rparr>"

definition env_four_files :: env where
  "env_four_files =
     \<lparr>config_response = NotOk 404 ''Not Found'',
      files_response = Ok [''a.md'', ''b.md'', ''c.md'', ''d.md''],
      save_response = Ok (), now = ''2025-01-01T00:00:00.000Z'',
      largeToString = showInt\<rparr>"

definition env_save_down :: env where
  "env_save_down =
     \<lparr>config_response = NotOk 404 ''Not Found'',
      files_response = Ok [''a.md'', ''b.md'', ''c.md'', ''d.md''],
      save_response = NotOk 500 ''Internal Server Error'', now = ''2025-01-01T00:00:00.000Z'',
      largeToString = showInt\<rparr>"

definition env_rescan :: env where
  "env_rescan =
     \<lparr>config_response = Ok collapsed_state, files_response = Ok [''y.md'', ''z.md''],
      save_response = Ok (), now = ''2025-01-01T00:00:00.000Z'',
      largeToString = showInt\<rparr>"

definition env_second :: env where
  "env_second = env_rescan\<lparr>config_response := Ok (snd (initializeWorkflowState env_rescan collapsed_state))\<rparr>"

subsection \<open>The node list of a reconciliation\<close>

text \<open>The nodes and edges \<open>initializeWorkflowState\<close> starts from: those of the config, if any.\<close>

definition configNodes :: "env \<Rightarrow> NodeState list" where
  "configNodes e = (case loadWorkflowConfig (config_response e) of None \<Rightarrow> [] | Some c \<Rightarrow> nodes c)"

definition configEdges :: "env \<Rightarrow> Edge list" where
  "configEdges e = (case loadWorkflowConfig (config_response e) of None \<Rightarrow> [] | Some c \<Rightarrow> edges c)"

text \<open>
  Both \<open>initializeWorkflowState\<close> and \<open>reEnumerateMarkdownFiles\<close> run the availability
  pass and then the loop over the new files; \<open>mergedNodes\<close> is the resulting array, and
  \<open>createdNode\<close> the node the loop pushes for the file at position \<open>fst p\<close> of the
  new files, the loop having started at index \<open>start\<close> with \<open>len\<close> nodes.
\<close>

definition mergedNodes :: "(int \<Rightarrow> string) \<Rightarrow> string list \<Rightarrow> NodeState list \<Rightarrow> NodeState list" where
  "mergedNodes large files ns =
     (let ns1 = markOrphaned files ns
      in addNewNodes large (nextNodeIdOf ns1) 0 (newFilesOf files ns1) ns1)"

definition createdNode ::
  "(int \<Rightarrow> string) \<Rightarrow> number \<Rightarrow> nat \<Rightarrow> nat \<Rightarrow> nat \<times> string \<Rightarrow> NodeState" where
  "createdNode large nextNodeId len start p =
     newNode (toString large (addInt nextNodeId (int (fst p))))
       (calculateGridPosition (len + 2 * fst p - start) 250 200) (snd p)"

text \<open>
  The id rule in the words of the specification: \<open>m\<close> is strictly greater than every
  id that \<open>parseInt\<close> reads as a number, and it is the next integer after one of them, or 1
  when no id is numeric.
\<close>

definition isNextId :: "NodeState list \<Rightarrow> int \<Rightarrow> bool" where
  "isNextId ns m =
     ((\<forall>n \<in> set ns. case parseInt (node_id n) of None \<Rightarrow> True | Some x \<Rightarrow> lessNumber x (Fin m)) \<and>
      (if \<forall>n \<in> set ns. parseInt (node_id n) = None then m = 1
       else \<exists>n \<in> set ns. parseInt (node_id n) = Some (Fin (m - 1))))"

text \<open>
  The ids for which the arithmetic on doubles is exact in a run that creates \<open>c\<close> nodes:
  every id that \<open>parseInt\<close> reads is a finite integer, and its absolute value and \<open>c\<close>
  together do not exceed \<open>2^53\<close>.
\<close>

definition safeIds :: "NodeState list \<Rightarrow> nat \<Rightarrow> bool" where
  "safeIds ns c =
     (int c \<le> 2 ^ 53 \<and>
      (\<forall>n \<in> set ns.
         case parseInt (node_id n) of
           None \<Rightarrow> True
         | Some x \<Rightarrow> (case x of Fin i \<Rightarrow> \<bar>i\<bar> + int c \<le> 2 ^ 53 | PosInf \<Rightarrow> False | NegInf \<Rightarrow> False)))"

text \<open>
  Two states whose one node has the id \<open>2^53\<close>, respectively \<open>2^53 - 1\<close>, and listings
  that hold the document of that node and one, respectively two, new documents.
\<close>

definition state_id_2_53 :: WorkflowState where
  "state_id_2_53 = sample_state\<lparr>nodes := [sample_node\<lparr>node_id := ''9007199254740992''\<rparr>]\<rparr>"

definition state_id_below_2_53 :: WorkflowState where
  "state_id_below_2_53 = sample_state\<lparr>nodes := [sample_node\<lparr>node_id := ''9007199254740991''\<rparr>]\<rparr>"

definition env_one_new :: env where
  "env_one_new =
     \<lparr>config_response = Ok state_id_2_53, files_response = Ok [''x.md'', ''a.md''],
      save_response = Ok (), now = ''2025-01-01T00:00:00.000Z'', largeToString = showInt\<rparr>"

definition env_two_new :: env where
  "env_two_new =
     \<lparr>config_response = Ok state_id_below_2_53, files_response = Ok [''x.md'', ''a.md'', ''b.md''],
      save_response = Ok (), now = ''2025-01-01T00:00:00.000Z'', largeToString = showInt\<rparr>"

section \<open>Properties\<close>

subsection \<open>parseInt reads back the digits of an integer\<close>

lemma digitValue_digitChar: "d < 10 \<Longrightarrow> digitValue (digitChar d) = d"
  by (simp add: digitValue_def digitChar_def Let_def)

lemma decimal_digits: "\<forall>c \<in> set (decimal n). digitValue c < 10"
proof (induction n rule: decimal.induct)
  case (1 n)
  show ?case
  proof (cases "n < 10")
    case True
    then show ?thesis by (subst decimal.simps) (simp add: digitValue_digitChar)
  next
    case False
    then have "\<forall>c \<in> set (decimal (n div 10)). digitValue c < 10" using 1 by simp
    then show ?thesis using False by (subst decimal.simps) (simp add: digitValue_digitChar)
  qed
qed

lemma decimal_nonempty: "decimal n \<noteq> []"
  by (subst decimal.simps) simp

lemma radixValue_decimal: "radixValue 10 (decimal n) = n"
proof (induction n rule: decimal.induct)
  case (1 n)
  show ?case
  proof (cases "n < 10")
    case True
    then show ?thesis by (subst decimal.simps) (simp add: radixValue_def digitValue_digitChar)
  next
    case False
    then have "radixValue 10 (decimal (n div 10)) = n div 10" using 1 by simp
    then show ?thesis using False
      by (subst decimal.simps) (simp add: radixValue_def digitValue_digitChar)
  qed
qed

lemma parseDigits_decimal: "parseDigits sg 10 (decimal n) = Some (roundDouble (sg * int n))"
proof -
  have tw: "takeWhile (\<lambda>c. digitValue c < 10) (decimal n) = decimal n"
    using decimal_digits by (simp add: takeWhile_eq_all_conv)
  show ?thesis
    unfolding parseDigits_def Let_def tw
    by (simp add: decimal_nonempty radixValue_decimal)
qed

lemma digit_facts:
  assumes "digitValue c < 10"
  shows "c \<noteq> CHR ''x''" "c \<noteq> CHR ''X''" "c \<noteq> CHR ''-''" "c \<noteq> CHR ''+''" "\<not> isWhiteSpace c"
  using assms by (auto simp: digitValue_def isWhiteSpace_def Let_def split: if_splits)

lemma parseRadix_digits:
  assumes "\<forall>c \<in> set s. digitValue c < 10"
  shows "parseRadix sg s = parseDigits sg 10 s"
proof (cases s)
  case Nil
  then show ?thesis by simp
next
  case (Cons a t)
  show ?thesis
  proof (cases t)
    case Nil
    with Cons show ?thesis by simp
  next
    case (Cons b u)
    with \<open>s = a # t\<close> assms have "digitValue b < 10" by simp
    then have "b \<noteq> CHR ''x''" "b \<noteq> CHR ''X''" by (rule digit_facts)+
    with Cons \<open>s = a # t\<close> show ?thesis by simp
  qed
qed

lemma parseSign_digits:
  assumes "\<forall>c \<in> set s. digitValue c < 10"
  shows "parseSign s = parseDigits 1 10 s"
proof (cases s)
  case Nil
  then show ?thesis by simp
next
  case (Cons a t)
  with assms have "digitValue a < 10" by simp
  then have "a \<noteq> CHR ''-''" "a \<noteq> CHR ''+''" by (rule digit_facts)+
  with Cons show ?thesis using parseRadix_digits [OF assms] by simp
qed

lemma dropWhile_decimal: "dropWhile isWhiteSpace (decimal n) = decimal n"
proof (cases "decimal n")
  case Nil
  then show ?thesis by simp
next
  case (Cons a t)
  then have "a \<in> set (decimal n)" by simp
  then have "\<not> isWhiteSpace a" using decimal_digits digit_facts(5) by blast
  with Cons show ?thesis by simp
qed

lemma parseInt_showInt: "parseInt (showInt i) = Some (roundDouble i)"
proof (cases "i < 0")
  case True
  have "\<not> isWhiteSpace (CHR ''-'')" by (simp add: isWhiteSpace_def)
  then have "parseInt (showInt i) = parseRadix (- 1) (decimal (nat (- i)))"
    using True by (simp add: parseInt_def showInt_def)
  also have "\<dots> = Some (roundDouble (- 1 * int (nat (- i))))"
    using parseRadix_digits [OF decimal_digits] parseDigits_decimal by simp
  finally show ?thesis using True by simp
next
  case False
  then have "parseInt (showInt i) = parseSign (decimal (nat i))"
    by (simp add: parseInt_def showInt_def dropWhile_decimal)
  also have "\<dots> = Some (roundDouble (1 * int (nat i)))"
    using parseSign_digits [OF decimal_digits] parseDigits_decimal by simp
  finally show ?thesis using False by simp
qed

lemma roundDouble_safe: "\<bar>i\<bar> \<le> 2 ^ 53 \<Longrightarrow> roundDouble i = Fin i"
  by (simp add: roundDouble_def)

lemma toString_safe: "\<bar>i\<bar> \<le> 2 ^ 53 \<Longrightarrow> toString large (Fin i) = showInt i"
  by (simp add: toString_def)

lemma showInt_inj:
  assumes "\<bar>i\<bar> \<le> 2 ^ 53" and "\<bar>j\<bar> \<le> 2 ^ 53" and "showInt i = showInt j"
  shows "i = j"
proof -
  have "Some (roundDouble i) = Some (roundDouble j)"
    using assms(3) parseInt_showInt [of i] parseInt_showInt [of j] by simp
  then show ?thesis using assms(1,2) by (simp add: roundDouble_safe)
qed

lemma update_first_absent: "find p xs = None \<Longrightarrow> update_first p f xs = xs"
  by (induction xs) (auto split: if_splits)

lemma remove_first_absent: "find p xs = None \<Longrightarrow> remove_first p xs = xs"
  by (induction xs) (auto split: if_splits)

lemma find_update_first:
  "find p xs = Some a \<Longrightarrow> p (f a) \<Longrightarrow> find p (update_first p f xs) = Some (f a)"
  by (induction xs) (auto split: if_splits)

lemma hasId_toggleNode: "hasId i (toggleNode n) = hasId i n"
  by (simp add: hasId_def toggleNode_def Let_def)

lemma hasId_resizeNode: "hasId i (resizeNode sz n) = hasId i n"
  by (simp add: hasId_def resizeNode_def Let_def)

lemma find_hasId: "find (hasId i) xs = Some n \<Longrightarrow> hasId i n"
  by (induction xs) (auto split: if_splits)

lemma getNodeState_toggle:
  assumes "getNodeState nodeId s = Some n"
  shows "toggleNodeCollapse nodeId s =
           Inr ((toggleSize n, \<not> isCollapsed n), s\<lparr>nodes := update_first (hasId nodeId) toggleNode (nodes s)\<rparr>)"
    and "getNodeState nodeId (s\<lparr>nodes := update_first (hasId nodeId) toggleNode (nodes s)\<rparr>) = Some (toggleNode n)"
proof -
  from assms have f: "find (hasId nodeId) (nodes s) = Some n" by (simp add: getNodeState_def)
  then show "toggleNodeCollapse nodeId s =
           Inr ((toggleSize n, \<not> isCollapsed n), s\<lparr>nodes := update_first (hasId nodeId) toggleNode (nodes s)\<rparr>)"
    by (simp add: toggleNodeCollapse_def toggleNode_def Let_def)
  from f have "hasId nodeId (toggleNode n)" by (simp add: hasId_toggleNode find_hasId)
  with f show "getNodeState nodeId (s\<lparr>nodes := update_first (hasId nodeId) toggleNode (nodes s)\<rparr>) = Some (toggleNode n)"
    by (simp add: getNodeState_def find_update_first)
qed

lemma getNodeState_resize:
  assumes "getNodeState nodeId s = Some n"
  shows "updateNodeSize nodeId sz s = Inr (s\<lparr>nodes := update_first (hasId nodeId) (resizeNode sz) (nodes s)\<rparr>)"
    and "getNodeState nodeId (s\<lparr>nodes := update_first (hasId nodeId) (resizeNode sz) (nodes s)\<rparr>) = Some (resizeNode sz n)"
proof -
  from assms have f: "find (hasId nodeId) (nodes s) = Some n" by (simp add: getNodeState_def)
  then show "updateNodeSize nodeId sz s = Inr (s\<lparr>nodes := update_first (hasId nodeId) (resizeNode sz) (nodes s)\<rparr>)"
    by (simp add: updateNodeSize_def)
  from f have "hasId nodeId (resizeNode sz n)" by (simp add: hasId_resizeNode find_hasId)
  with f show "getNodeState nodeId (s\<lparr>nodes := update_first (hasId nodeId) (resizeNode sz) (nodes s)\<rparr>) = Some (resizeNode sz n)"
    by (simp add: getNodeState_def find_update_first)
qed

lemma toggleNode_twice_size:
  "\<not> isCollapsed n \<Longrightarrow> node_size (toggleNode (toggleNode n)) = node_size n"
  "\<not> isCollapsed n \<Longrightarrow> \<not> isCollapsed (toggleNode (toggleNode n))"
  "\<not> isCollapsed n \<Longrightarrow> toggleSize (toggleNode n) = node_size n"
  by (simp_all add: toggleNode_def toggleSize_def Let_def)

subsection \<open>Collapse and expand\<close>

text \<open>
  C6. Collapse-then-expand is a round trip on the size of a node: for a node present in
  the state and expanded, two calls of \<open>toggleNodeCollapse\<close> both return, the second
  returns the size the node had before the first, and the node in the state has that size
  again and is expanded.
\<close>

theorem collapse_expand_round_trip:
  assumes "getNodeState nodeId s = Some n" and "\<not> isCollapsed n"
  shows "\<exists>r1 s1 r2 s2 n2.
           toggleNodeCollapse nodeId s = Inr (r1, s1) \<and>
           toggleNodeCollapse nodeId s1 = Inr (r2, s2) \<and>
           fst r2 = node_size n \<and>
           getNodeState nodeId s2 = Some n2 \<and>
           node_size n2 = node_size n \<and> \<not> isCollapsed n2"
proof -
  let ?s1 = "s\<lparr>nodes := update_first (hasId nodeId) toggleNode (nodes s)\<rparr>"
  let ?s2 = "?s1\<lparr>nodes := update_first (hasId nodeId) toggleNode (nodes ?s1)\<rparr>"
  note t1 = getNodeState_toggle [OF assms(1)]
  note t2 = getNodeState_toggle [OF t1(2)]
  have "toggleNodeCollapse nodeId s = Inr ((toggleSize n, \<not> isCollapsed n), ?s1)" by (rule t1(1))
  moreover have "toggleNodeCollapse nodeId ?s1 =
      Inr ((toggleSize (toggleNode n), \<not> isCollapsed (toggleNode n)), ?s2)" by (rule t2(1))
  moreover have "fst (toggleSize (toggleNode n), \<not> isCollapsed (toggleNode n)) = node_size n"
    using assms(2) by (simp add: toggleNode_twice_size)
  moreover have "getNodeState nodeId ?s2 = Some (toggleNode (toggleNode n))" by (rule t2(2))
  moreover have "node_size (toggleNode (toggleNode n)) = node_size n"
    "\<not> isCollapsed (toggleNode (toggleNode n))"
    using assms(2) by (simp_all add: toggleNode_twice_size)
  ultimately show ?thesis by blast
qed

theorem collapse_expand_round_trip_witness:
  "getNodeState ''1'' sample_state = Some sample_node \<and> \<not> isCollapsed sample_node \<and>
   (\<exists>r1 s1 r2 s2 n2.
      toggleNodeCollapse ''1'' sample_state = Inr (r1, s1) \<and>
      toggleNodeCollapse ''1'' s1 = Inr (r2, s2) \<and>
      fst r2 = \<lparr>width = 300, height = 250\<rparr> \<and>
      getNodeState ''1'' s2 = Some n2 \<and>
      node_size n2 = \<lparr>width = 300, height = 250\<rparr> \<and> \<not> isCollapsed n2)"
proof -
  have h1: "getNodeState ''1'' sample_state = Some sample_node"
    by (simp add: getNodeState_def sample_state_def sample_node_def hasId_def)
  have h2: "\<not> isCollapsed sample_node"
    by (simp add: sample_node_def)
  have sz: "node_size sample_node = \<lparr>width = 300, height = 250\<rparr>"
    by (simp add: sample_node_def)
  from collapse_expand_round_trip [OF h1 h2] h1 h2 show ?thesis
    unfolding sz by blast
qed

subsection \<open>Operations on an absent node id\<close>

text \<open>
  C9, as stated, fails: \<open>updateNodePosition\<close> on an id that no node has returns normally
  with the state unchanged; it reports no error.
\<close>

theorem absent_node_counterexample:
  "getNodeState ''7'' initial_state = None \<and>
   updateNodePosition ''7'' \<lparr>pos_x = 0, pos_y = 0\<rparr> initial_state = Inr initial_state"
  by (simp add: getNodeState_def updateNodePosition_def initial_state_def)

text \<open>
  C9, amended. For a node id absent from the state, \<open>toggleNodeCollapse\<close> throws
  "Node not found", while \<open>updateNodePosition\<close>, \<open>updateNodeSize\<close>,
  \<open>updateNodeMinDimensions\<close> and \<open>removeNode\<close> return normally and leave the state
  unchanged.
\<close>

theorem absent_node:
  assumes "getNodeState nodeId s = None"
  shows "toggleNodeCollapse nodeId s = Inl (NodeNotFound nodeId) \<and>
         updateNodePosition nodeId pos s = Inr s \<and>
         updateNodeSize nodeId sz s = Inr s \<and>
         updateNodeMinDimensions nodeId md s = Inr s \<and>
         removeNode nodeId s = Inr s"
  using assms
  by (simp add: getNodeState_def toggleNodeCollapse_def updateNodePosition_def
      updateNodeSize_def updateNodeMinDimensions_def removeNode_def)

theorem absent_node_witness:
  "getNodeState ''7'' sample_state = None \<and>
   toggleNodeCollapse ''7'' sample_state = Inl (NodeNotFound ''7'') \<and>
   updateNodePosition ''7'' \<lparr>pos_x = 0, pos_y = 0\<rparr> sample_state = Inr sample_state \<and>
   updateNodeSize ''7'' \<lparr>width = 1, height = 1\<rparr> sample_state = Inr sample_state \<and>
   updateNodeMinDimensions ''7'' defaultMinDimensions sample_state = Inr sample_state \<and>
   removeNode ''7'' sample_state = Inr sample_state"
proof -
  have h: "getNodeState ''7'' sample_state = None"
    by (simp add: getNodeState_def sample_state_def sample_node_def hasId_def)
  from absent_node [OF h] h show ?thesis by blast
qed

subsection \<open>Grid placement of new nodes\<close>

text \<open>
  C2. With no config file and the documents \<open>a.md\<close>, \<open>b.md\<close>, \<open>c.md\<close>, \<open>d.md\<close>, both
  reconciliation methods place the four new nodes at the grid indices 0, 2, 4, 6, that is
  at the cells (0,0), (2,0), (1,1), (0,2), with pitch 300 by 250 and padding 50: the
  callback adds the loop index to the length of an array that the loop itself has grown.
  The cells (0,0), (1,0), (2,0), (0,1) of the indices 0, 1, 2, 3 are the last line.
\<close>

theorem grid_four_new_nodes:
  "map position (nodes (snd (initializeWorkflowState env_four_files initial_state))) =
     [\<lparr>pos_x = 50, pos_y = 50\<rparr>, \<lparr>pos_x = 650, pos_y = 50\<rparr>,
      \<lparr>pos_x = 350, pos_y = 300\<rparr>, \<lparr>pos_x = 50, pos_y = 550\<rparr>] \<and>
   map position (nodes (snd (reEnumerateMarkdownFiles env_four_files initial_state))) =
     [\<lparr>pos_x = 50, pos_y = 50\<rparr>, \<lparr>pos_x = 650, pos_y = 50\<rparr>,
      \<lparr>pos_x = 350, pos_y = 300\<rparr>, \<lparr>pos_x = 50, pos_y = 550\<rparr>] \<and>
   map (\<lambda>i. calculateGridPosition i 250 200) [0, 1, 2, 3] =
     [\<lparr>pos_x = 50, pos_y = 50\<rparr>, \<lparr>pos_x = 350, pos_y = 50\<rparr>,
      \<lparr>pos_x = 650, pos_y = 50\<rparr>, \<lparr>pos_x = 50, pos_y = 300\<rparr>]"
  by (simp add: initializeWorkflowState_def reEnumerateMarkdownFiles_def env_four_files_def
      initial_state_def loadWorkflowConfig_def enumerateMarkdownFiles_def markOrphaned_def
      newFilesOf_def workflowPath_def saveWorkflowConfig_def Let_def calculateGridPosition_def
      newNode_def nextNodeIdOf_def existingIds_def List.map_filter_simps)

subsection \<open>Resizing a collapsed node\<close>

lemma toggleNode_resized:
  "node_size (toggleNode n) = toggleSize n"
  "expandedSize (toggleNode n) = (if isCollapsed n then expandedSize n else Some (node_size n))"
  "isCollapsed (toggleNode n) = (\<not> isCollapsed n)"
  by (simp_all add: toggleNode_def Let_def)

text \<open>
  C10. \<open>updateNodeSize\<close> on a node present in the state always sets the displayed size.
  While the node is collapsed it leaves \<open>expandedSize\<close> (and every other field) as it was,
  and the next \<open>toggleNodeCollapse\<close> expands the node to the remembered \<open>expandedSize\<close>
  (the expanded minimum when none is remembered), whatever the size given while collapsed.
  While the node is expanded the resize also stores the size in \<open>expandedSize\<close>. So for
  an expanded node, collapsing it, resizing it and expanding it again gives back the size it
  had when it was collapsed.
\<close>

theorem resize_expandedSize:
  assumes "getNodeState nodeId s = Some n"
  shows "(\<exists>s1 n1 r s2 n2.
           updateNodeSize nodeId sz s = Inr s1 \<and>
           getNodeState nodeId s1 = Some n1 \<and>
           n1 = (if isCollapsed n then n\<lparr>node_size := sz\<rparr>
                 else n\<lparr>node_size := sz, expandedSize := Some sz\<rparr>) \<and>
           toggleNodeCollapse nodeId s1 = Inr (r, s2) \<and>
           getNodeState nodeId s2 = Some n2 \<and>
           isCollapsed n2 = (\<not> isCollapsed n) \<and>
           expandedSize n2 = (if isCollapsed n then expandedSize n else Some sz) \<and>
           node_size n2 =
             (if isCollapsed n
              then (case expandedSize n of
                      Some e \<Rightarrow> e
                    | None \<Rightarrow> \<lparr>width = min_width (minDimensions n),
                                 height = min_height (minDimensions n)\<rparr>)
              else \<lparr>width = collapsedWidth (minDimensions n),
                    height = collapsedHeight (minDimensions n)\<rparr>)) \<and>
         (\<not> isCollapsed n \<longrightarrow>
            (\<exists>r1 s1 s2 r3 s3 n3.
               toggleNodeCollapse nodeId s = Inr (r1, s1) \<and>
               updateNodeSize nodeId sz s1 = Inr s2 \<and>
               toggleNodeCollapse nodeId s2 = Inr (r3, s3) \<and>
               getNodeState nodeId s3 = Some n3 \<and>
               fst r3 = node_size n \<and> node_size n3 = node_size n \<and> \<not> isCollapsed n3))"
proof -
  let ?s1 = "s\<lparr>nodes := update_first (hasId nodeId) (resizeNode sz) (nodes s)\<rparr>"
  let ?s2 = "?s1\<lparr>nodes := update_first (hasId nodeId) toggleNode (nodes ?s1)\<rparr>"
  let ?n1 = "resizeNode sz n"
  let ?n2 = "toggleNode ?n1"
  note u = getNodeState_resize [OF assms, of sz]
  note t = getNodeState_toggle [OF u(2)]
  have r: "?n1 = (if isCollapsed n then n\<lparr>node_size := sz\<rparr>
                  else n\<lparr>node_size := sz, expandedSize := Some sz\<rparr>)"
    by (simp add: resizeNode_def Let_def)
  have c: "isCollapsed ?n2 = (\<not> isCollapsed n)"
    by (simp add: toggleNode_resized resizeNode_def Let_def)
  have e: "expandedSize ?n2 = (if isCollapsed n then expandedSize n else Some sz)"
    by (simp add: toggleNode_resized resizeNode_def Let_def)
  have z: "node_size ?n2 =
             (if isCollapsed n
              then (case expandedSize n of
                      Some e \<Rightarrow> e
                    | None \<Rightarrow> \<lparr>width = min_width (minDimensions n),
                                 height = min_height (minDimensions n)\<rparr>)
              else \<lparr>width = collapsedWidth (minDimensions n),
                    height = collapsedHeight (minDimensions n)\<rparr>)"
    by (simp add: toggleNode_resized toggleSize_def resizeNode_def Let_def split: option.splits)
  from u(1) u(2) r t(1) t(2) c e z have first: "\<exists>s1 n1 r s2 n2.
           updateNodeSize nodeId sz s = Inr s1 \<and>
           getNodeState nodeId s1 = Some n1 \<and>
           n1 = (if isCollapsed n then n\<lparr>node_size := sz\<rparr>
                 else n\<lparr>node_size := sz, expandedSize := Some sz\<rparr>) \<and>
           toggleNodeCollapse nodeId s1 = Inr (r, s2) \<and>
           getNodeState nodeId s2 = Some n2 \<and>
           isCollapsed n2 = (\<not> isCollapsed n) \<and>
           expandedSize n2 = (if isCollapsed n then expandedSize n else Some sz) \<and>
           node_size n2 =
             (if isCollapsed n
              then (case expandedSize n of
                      Some e \<Rightarrow> e
                    | None \<Rightarrow> \<lparr>width = min_width (minDimensions n),
                                 height = min_height (minDimensions n)\<rparr>)
              else \<lparr>width = collapsedWidth (minDimensions n),
                    height = collapsedHeight (minDimensions n)\<rparr>)"
    by blast
  have second: "\<exists>r1 s1 s2 r3 s3 n3.
               toggleNodeCollapse nodeId s = Inr (r1, s1) \<and>
               updateNodeSize nodeId sz s1 = Inr s2 \<and>
               toggleNodeCollapse nodeId s2 = Inr (r3, s3) \<and>
               getNodeState nodeId s3 = Some n3 \<and>
               fst r3 = node_size n \<and> node_size n3 = node_size n \<and> \<not> isCollapsed n3"
    if expanded: "\<not> isCollapsed n"
  proof -
    let ?m = "toggleNode (resizeNode sz (toggleNode n))"
    note a = getNodeState_toggle [OF assms]
    note b = getNodeState_resize [OF a(2), of sz]
    note d = getNodeState_toggle [OF b(2)]
    have "fst (toggleSize (resizeNode sz (toggleNode n)), \<not> isCollapsed (resizeNode sz (toggleNode n))) =
            node_size n"
      using expanded by (simp add: toggleNode_def toggleSize_def resizeNode_def Let_def)
    moreover have "node_size ?m = node_size n" "\<not> isCollapsed ?m"
      using expanded by (simp_all add: toggleNode_def toggleSize_def resizeNode_def Let_def)
    ultimately show ?thesis using a(1) b(1) d(1) d(2) by blast
  qed
  from first second show ?thesis by blast
qed

theorem resize_expandedSize_witness:
  "getNodeState ''2'' collapsed_state = Some collapsed_node \<and>
   getNodeState ''1'' collapsed_state = Some sample_node \<and>
   isCollapsed collapsed_node \<and> \<not> isCollapsed sample_node \<and>
   (\<exists>s1 n1 r s2 n2.
      updateNodeSize ''2'' \<lparr>width = 400, height = 90\<rparr> collapsed_state = Inr s1 \<and>
      getNodeState ''2'' s1 = Some n1 \<and>
      n1 = collapsed_node\<lparr>node_size := \<lparr>width = 400, height = 90\<rparr>\<rparr> \<and>
      toggleNodeCollapse ''2'' s1 = Inr (r, s2) \<and>
      getNodeState ''2'' s2 = Some n2 \<and>
      isCollapsed n2 = False \<and>
      expandedSize n2 = Some \<lparr>width = 300, height = 250\<rparr> \<and>
      node_size n2 = \<lparr>width = 300, height = 250\<rparr>) \<and>
   (\<exists>r1 s1 s2 r3 s3 n3.
      toggleNodeCollapse ''1'' collapsed_state = Inr (r1, s1) \<and>
      updateNodeSize ''1'' \<lparr>width = 400, height = 90\<rparr> s1 = Inr s2 \<and>
      toggleNodeCollapse ''1'' s2 = Inr (r3, s3) \<and>
      getNodeState ''1'' s3 = Some n3 \<and>
      fst r3 = \<lparr>width = 300, height = 250\<rparr> \<and>
      node_size n3 = \<lparr>width = 300, height = 250\<rparr> \<and> \<not> isCollapsed n3)"
proof -
  have h2: "getNodeState ''2'' collapsed_state = Some collapsed_node"
    by (simp add: getNodeState_def collapsed_state_def collapsed_node_def sample_node_def hasId_def)
  have h1: "getNodeState ''1'' collapsed_state = Some sample_node"
    by (simp add: getNodeState_def collapsed_state_def collapsed_node_def sample_node_def hasId_def)
  have c: "isCollapsed collapsed_node = True"
    "expandedSize collapsed_node = Some \<lparr>width = 300, height = 250\<rparr>"
    by (simp_all add: collapsed_node_def)
  have x: "isCollapsed sample_node = False" "node_size sample_node = \<lparr>width = 300, height = 250\<rparr>"
    by (simp_all add: sample_node_def)
  have first: "\<exists>s1 n1 r s2 n2.
      updateNodeSize ''2'' \<lparr>width = 400, height = 90\<rparr> collapsed_state = Inr s1 \<and>
      getNodeState ''2'' s1 = Some n1 \<and>
      n1 = collapsed_node\<lparr>node_size := \<lparr>width = 400, height = 90\<rparr>\<rparr> \<and>
      toggleNodeCollapse ''2'' s1 = Inr (r, s2) \<and>
      getNodeState ''2'' s2 = Some n2 \<and>
      isCollapsed n2 = False \<and>
      expandedSize n2 = Some \<lparr>width = 300, height = 250\<rparr> \<and>
      node_size n2 = \<lparr>width = 300, height = 250\<rparr>"
    using resize_expandedSize [OF h2, of "\<lparr>width = 400, height = 90\<rparr>"] unfolding c by simp
  have second: "\<exists>r1 s1 s2 r3 s3 n3.
      toggleNodeCollapse ''1'' collapsed_state = Inr (r1, s1) \<and>
      updateNodeSize ''1'' \<lparr>width = 400, height = 90\<rparr> s1 = Inr s2 \<and>
      toggleNodeCollapse ''1'' s2 = Inr (r3, s3) \<and>
      getNodeState ''1'' s3 = Some n3 \<and>
      fst r3 = \<lparr>width = 300, height = 250\<rparr> \<and>
      node_size n3 = \<lparr>width = 300, height = 250\<rparr> \<and> \<not> isCollapsed n3"
    using resize_expandedSize [OF h1, of "\<lparr>width = 400, height = 90\<rparr>"] unfolding x by simp
  from h1 h2 c(1) x(1) first second show ?thesis by simp
qed

subsection \<open>A failing document listing\<close>

lemma enumerate_failed: "\<not> isOk r \<Longrightarrow> enumerateMarkdownFiles r = []"
  by (cases r) (simp_all add: isOk_def enumerateMarkdownFiles_def)

lemma markOrphaned_empty: "markOrphaned [] ns = map (\<lambda>n. n\<lparr>isOrphaned := Some True\<rparr>) ns"
  by (simp add: markOrphaned_def)

lemma newFilesOf_empty: "newFilesOf [] ns = []"
  by (simp add: newFilesOf_def)

text \<open>
  C1, as stated, fails: the node for \<open>x.md\<close> is cached as available; when the listing call
  rejects, both reconciliation methods return it marked orphaned.
\<close>

theorem listing_failure_counterexample:
  "map isOrphaned (nodes sample_state) = [Some False] \<and>
   map isOrphaned (nodes (snd (initializeWorkflowState env_listing_down initial_state))) = [Some True] \<and>
   map isOrphaned (nodes (snd (reEnumerateMarkdownFiles env_listing_down sample_state))) = [Some True]"
  by (simp add: initializeWorkflowState_def reEnumerateMarkdownFiles_def env_listing_down_def
      sample_state_def sample_node_def loadWorkflowConfig_def enumerateMarkdownFiles_def
      markOrphaned_def newFilesOf_def saveWorkflowConfig_def Let_def)

text \<open>
  C1, amended. When the listing call fails, \<open>enumerateMarkdownFiles\<close> returns the empty
  listing, and reconciliation runs the availability pass against it: the resulting nodes are
  exactly the existing nodes, each marked orphaned, and no node is added.
\<close>

theorem listing_failure_orphans_all:
  assumes "\<not> isOk (files_response e)"
  shows "nodes (snd (initializeWorkflowState e s)) =
           map (\<lambda>n. n\<lparr>isOrphaned := Some True\<rparr>)
             (case loadWorkflowConfig (config_response e) of None \<Rightarrow> [] | Some c \<Rightarrow> nodes c) \<and>
         nodes (snd (reEnumerateMarkdownFiles e s)) =
           map (\<lambda>n. n\<lparr>isOrphaned := Some True\<rparr>) (nodes s)"
proof -
  have f: "enumerateMarkdownFiles (files_response e) = []"
    using assms by (rule enumerate_failed)
  have "nodes (snd (initializeWorkflowState e s)) =
           map (\<lambda>n. n\<lparr>isOrphaned := Some True\<rparr>)
             (case loadWorkflowConfig (config_response e) of None \<Rightarrow> [] | Some c \<Rightarrow> nodes c)"
    by (simp add: initializeWorkflowState_def f markOrphaned_empty newFilesOf_empty Let_def)
  moreover have "nodes (snd (reEnumerateMarkdownFiles e s)) =
           map (\<lambda>n. n\<lparr>isOrphaned := Some True\<rparr>) (nodes s)"
    by (simp add: reEnumerateMarkdownFiles_def f markOrphaned_empty newFilesOf_empty Let_def
        split: sum.splits)
  ultimately show ?thesis by simp
qed

theorem listing_failure_orphans_all_witness:
  "\<not> isOk (files_response env_listing_down) \<and>
   nodes (snd (initializeWorkflowState env_listing_down initial_state)) =
     [sample_node\<lparr>isOrphaned := Some True\<rparr>] \<and>
   nodes (snd (reEnumerateMarkdownFiles env_listing_down sample_state)) =
     [sample_node\<lparr>isOrphaned := Some True\<rparr>]"
proof -
  have h: "\<not> isOk (files_response env_listing_down)"
    by (simp add: env_listing_down_def isOk_def)
  have c: "loadWorkflowConfig (config_response env_listing_down) = Some sample_state"
    by (simp add: env_listing_down_def loadWorkflowConfig_def)
  have n: "nodes sample_state = [sample_node]"
    by (simp add: sample_state_def)
  from listing_failure_orphans_all [OF h, of initial_state]
    listing_failure_orphans_all [OF h, of sample_state] h show ?thesis
    by (simp add: c n)
qed

subsection \<open>A failing write\<close>

lemma save_failed: "\<not> isOk r \<Longrightarrow> \<exists>msg. saveWorkflowConfig r c = Inl (SaveFailed msg)"
  by (cases r) (simp_all add: isOk_def saveWorkflowConfig_def)

text \<open>
  C5, as stated, fails: with four new documents and a write answered by status 500,
  \<open>initializeWorkflowState\<close> returns the error and no graph, and the state of the manager
  is still the initial, empty one; \<open>reEnumerateMarkdownFiles\<close> returns the error as well.
\<close>

theorem save_failure_counterexample:
  "fst (initializeWorkflowState env_save_down initial_state) =
     Inl (SaveFailed ''Failed to save workflow config: Internal Server Error'') \<and>
   snd (initializeWorkflowState env_save_down initial_state) = initial_state \<and>
   fst (reEnumerateMarkdownFiles env_save_down initial_state) =
     Inl (SaveFailed ''Failed to save workflow config: Internal Server Error'')"
  by (simp add: initializeWorkflowState_def reEnumerateMarkdownFiles_def env_save_down_def
      initial_state_def loadWorkflowConfig_def enumerateMarkdownFiles_def markOrphaned_def
      newFilesOf_def workflowPath_def saveWorkflowConfig_def Let_def)

subsection \<open>The loop over the new files\<close>

lemma addNewNodes_enumerate:
  "addNewNodes large nid i files ns = ns @ map (createdNode large nid (length ns) i) (enumerate i files)"
proof (induction files arbitrary: i ns)
  case Nil
  then show ?case by simp
next
  case (Cons f fs)
  have "map (createdNode large nid (length (ns @ [x])) (Suc i)) (enumerate (Suc i) fs) =
        map (createdNode large nid (length ns) i) (enumerate (Suc i) fs)" for x
    by (rule map_cong) (simp_all add: createdNode_def)
  then show ?case
    by (simp add: Cons.IH Let_def createdNode_def add.commute)
qed

lemma markOrphaned_ids: "map node_id (markOrphaned files ns) = map node_id ns"
  by (simp add: markOrphaned_def comp_def)

lemma markOrphaned_paths:
  "map (\<lambda>n. markdownPath (data n)) (markOrphaned files ns) = map (\<lambda>n. markdownPath (data n)) ns"
  by (simp add: markOrphaned_def comp_def)

lemma markOrphaned_length: "length (markOrphaned files ns) = length ns"
  by (simp add: markOrphaned_def)

lemma existingIds_markOrphaned: "existingIds (markOrphaned files ns) = existingIds ns"
  by (induction ns)
    (simp_all add: existingIds_def markOrphaned_def List.map_filter_simps split: option.splits)

lemma nextNodeIdOf_markOrphaned: "nextNodeIdOf (markOrphaned files ns) = nextNodeIdOf ns"
  by (simp add: nextNodeIdOf_def existingIds_markOrphaned)

lemma newFilesOf_markOrphaned: "newFilesOf files (markOrphaned fs ns) = newFilesOf files ns"
  by (simp add: newFilesOf_def markOrphaned_paths)

lemma nextNodeIdOf_Nil: "nextNodeIdOf [] = Fin 1"
  by (simp add: nextNodeIdOf_def existingIds_def)

lemma mergedNodes_eq:
  "mergedNodes large files ns =
     markOrphaned files ns @
     map (createdNode large (nextNodeIdOf ns) (length ns) 0) (enumerate 0 (newFilesOf files ns))"
  by (simp add: mergedNodes_def Let_def addNewNodes_enumerate nextNodeIdOf_markOrphaned
      newFilesOf_markOrphaned markOrphaned_length)

lemma reEnumerate_nodes:
  "nodes (snd (reEnumerateMarkdownFiles e s)) =
     mergedNodes (largeToString e) (enumerateMarkdownFiles (files_response e)) (nodes s)"
  "edges (snd (reEnumerateMarkdownFiles e s)) = edges s"
  by (simp_all add: reEnumerateMarkdownFiles_def mergedNodes_def Let_def split: sum.splits)

lemma initialize_cases:
  "initializeWorkflowState e s =
     (let s' = \<lparr>nodes = mergedNodes (largeToString e) (enumerateMarkdownFiles (files_response e)) (configNodes e),
                edges = configEdges e, lastSaved = now e, version = ''1.0.0''\<rparr>
      in if newFilesOf (enumerateMarkdownFiles (files_response e)) (configNodes e) \<noteq> []
            \<and> \<not> isOk (save_response e)
         then (Inl (case save_response e of NotOk st txt \<Rightarrow> SaveFailed (''Failed to save workflow config: '' @ txt)
                      | Rejected msg \<Rightarrow> SaveFailed msg | Ok u \<Rightarrow> SaveFailed []), s)
         else (Inr (toReactFlowNodes s', edges s'), s'))"
proof (cases "loadWorkflowConfig (config_response e)")
  case None
  then show ?thesis
    by (cases "save_response e")
      (simp_all add: initializeWorkflowState_def mergedNodes_def configNodes_def configEdges_def
        Let_def isOk_def saveWorkflowConfig_def newFilesOf_markOrphaned nextNodeIdOf_markOrphaned
        nextNodeIdOf_Nil markOrphaned_def)
next
  case (Some c)
  then show ?thesis
    by (cases "save_response e")
      (simp_all add: initializeWorkflowState_def mergedNodes_def configNodes_def configEdges_def
        Let_def isOk_def saveWorkflowConfig_def newFilesOf_markOrphaned nextNodeIdOf_markOrphaned)
qed

lemma initialize_success:
  assumes "initializeWorkflowState e s = (Inr r, s')"
  shows "nodes s' = mergedNodes (largeToString e) (enumerateMarkdownFiles (files_response e)) (configNodes e)"
    and "edges s' = configEdges e"
    and "r = (toReactFlowNodes s', edges s')"
  using assms by (auto simp: initialize_cases Let_def split: if_splits)

subsection \<open>The next node id\<close>

lemma fold_maxNumber_Fin: "fold maxNumber (map Fin xs) (Fin a) = Fin (fold max xs a)"
  by (induction xs arbitrary: a) (simp_all add: maxNumber_def max_def)

lemma Math_max_Fin: "xs \<noteq> [] \<Longrightarrow> Math_max (map Fin xs) = Fin (Max (set xs))"
proof (cases xs)
  case Nil
  assume "xs \<noteq> []"
  with Nil show ?thesis by simp
next
  case (Cons a as)
  have "Math_max (map Fin xs) = fold maxNumber (map Fin as) (Fin a)"
    by (simp add: Cons Math_max_def maxNumber_def)
  also have "\<dots> = Fin (fold max as a)" by (rule fold_maxNumber_Fin)
  also have "fold max as a = Max (set xs)"
    unfolding Cons by (rule Max.set_eq_fold [symmetric])
  finally show ?thesis .
qed

lemma safeIds_Cons: "safeIds (a # ns) c \<Longrightarrow> safeIds ns c"
  by (simp add: safeIds_def)

lemma safeIds_parse:
  assumes "safeIds ns c" and "n \<in> set ns" and "parseInt (node_id n) = Some x"
  shows "\<exists>i. x = Fin i \<and> \<bar>i\<bar> + int c \<le> 2 ^ 53"
proof -
  from assms have "case x of Fin i \<Rightarrow> \<bar>i\<bar> + int c \<le> 2 ^ 53 | PosInf \<Rightarrow> False | NegInf \<Rightarrow> False"
    by (fastforce simp: safeIds_def)
  then show ?thesis by (cases x) simp_all
qed

lemma safe_existingIds:
  assumes "safeIds ns c"
  shows "\<exists>is. existingIds ns = map Fin is \<and>
           set is = {i. \<exists>n \<in> set ns. parseInt (node_id n) = Some (Fin i)}"
  using assms
proof (induction ns)
  case Nil
  then show ?case by (simp add: existingIds_def)
next
  case (Cons a ns)
  from Cons.IH [OF safeIds_Cons [OF Cons.prems]] obtain "is" where
    "is": "existingIds ns = map Fin is"
      "set is = {i. \<exists>n \<in> set ns. parseInt (node_id n) = Some (Fin i)}" by blast
  show ?case
  proof (cases "parseInt (node_id a)")
    case None
    then have "existingIds (a # ns) = map Fin is"
      using "is"(1) by (simp add: existingIds_def List.map_filter_simps)
    moreover have "set is = {i. \<exists>n \<in> set (a # ns). parseInt (node_id n) = Some (Fin i)}"
      using "is"(2) None by auto
    ultimately show ?thesis by blast
  next
    case (Some x)
    with safeIds_parse [OF Cons.prems, of a x] obtain i where x: "x = Fin i" by auto
    have "existingIds (a # ns) = map Fin (i # is)"
      using "is"(1) Some x by (simp add: existingIds_def List.map_filter_simps)
    moreover have "set (i # is) = {i. \<exists>n \<in> set (a # ns). parseInt (node_id n) = Some (Fin i)}"
      using "is"(2) Some x by auto
    ultimately show ?thesis by blast
  qed
qed

lemma next_id_safe:
  assumes "safeIds ns c"
  shows "\<exists>m. isNextId ns m \<and>
           (\<forall>k < c. addInt (nextNodeIdOf ns) (int k) = Fin (m + int k) \<and> \<bar>m + int k\<bar> \<le> 2 ^ 53)"
proof -
  from safe_existingIds [OF assms] obtain "is" where
    "is": "existingIds ns = map Fin is"
      "set is = {i. \<exists>n \<in> set ns. parseInt (node_id n) = Some (Fin i)}" by blast
  have fin: "\<exists>i \<in> set is. x = Fin i \<and> \<bar>i\<bar> + int c \<le> 2 ^ 53"
    if "n \<in> set ns" "parseInt (node_id n) = Some x" for n x
    using safeIds_parse [OF assms that] that "is"(2) by auto
  have c: "int c \<le> 2 ^ 53" using assms by (simp add: safeIds_def)
  show ?thesis
  proof (cases "is = []")
    case True
    have none: "\<forall>n \<in> set ns. parseInt (node_id n) = None"
    proof
      fix n assume "n \<in> set ns"
      then show "parseInt (node_id n) = None"
        using fin [of n] True by (cases "parseInt (node_id n)") auto
    qed
    then have "isNextId ns 1" by (simp add: isNextId_def)
    moreover have "nextNodeIdOf ns = Fin 1"
      using True "is"(1) by (simp add: nextNodeIdOf_def)
    moreover have "roundDouble (1 + int k) = Fin (1 + int k)" "\<bar>1 + int k\<bar> \<le> 2 ^ 53" if "k < c" for k
      using that c by (simp_all add: roundDouble_safe)
    ultimately show ?thesis by (auto simp: addInt_def)
  next
    case False
    let ?M = "Max (set is)"
    have M: "?M \<in> set is" using False by (intro Max_in) simp_all
    then obtain n0 where n0: "n0 \<in> set ns" "parseInt (node_id n0) = Some (Fin ?M)"
      unfolding "is"(2) by blast
    have Mb: "\<bar>?M\<bar> + int c \<le> 2 ^ 53"
      using fin [OF n0] by auto
    have ub: "lessNumber x (Fin (?M + 1))" if "n \<in> set ns" "parseInt (node_id n) = Some x" for n x
    proof -
      from fin [OF that] obtain i where i: "i \<in> set is" "x = Fin i" by blast
      then have "i \<le> ?M" by simp
      with i(2) show ?thesis by simp
    qed
    have c1: "\<forall>n \<in> set ns. case parseInt (node_id n) of None \<Rightarrow> True
                | Some x \<Rightarrow> lessNumber x (Fin (?M + 1))"
      using ub by (auto split: option.splits)
    have c2: "\<not> (\<forall>n \<in> set ns. parseInt (node_id n) = None)"
      using n0 by auto
    have nx: "isNextId ns (?M + 1)"
      unfolding isNextId_def if_not_P [OF c2] using c1 n0 by auto
    have mm: "Math_max (existingIds ns) = Fin ?M"
      unfolding "is"(1) using False by (rule Math_max_Fin)
    have ne: "length (existingIds ns) > 0"
      using False "is"(1) by simp
    have "addInt (nextNodeIdOf ns) (int k) = Fin (?M + 1 + int k)" "\<bar>?M + 1 + int k\<bar> \<le> 2 ^ 53"
      if "k < c" for k
    proof -
      have b1: "\<bar>?M + 1\<bar> \<le> 2 ^ 53" and b2: "\<bar>?M + 1 + int k\<bar> \<le> 2 ^ 53"
        using that Mb by linarith+
      have "nextNodeIdOf ns = Fin (?M + 1)"
        using ne mm b1 by (simp add: nextNodeIdOf_def addInt_def roundDouble_safe)
      then show "addInt (nextNodeIdOf ns) (int k) = Fin (?M + 1 + int k)"
        using b2 by (simp add: addInt_def roundDouble_safe)
      show "\<bar>?M + 1 + int k\<bar> \<le> 2 ^ 53" by (rule b2)
    qed
    with nx show ?thesis by blast
  qed
qed

lemma map_enumerate_fst: "map (\<lambda>p. f (fst p)) (enumerate i xs) = map f [i..<i + length xs]"
proof -
  have "map (\<lambda>p. f (fst p)) (enumerate i xs) = map f (map fst (enumerate i xs))"
    by (simp only: map_map comp_def)
  also have "\<dots> = map f [i..<i + length xs]"
    by (simp only: map_fst_enumerate)
  finally show ?thesis .
qed

lemma map_enumerate_snd: "map (\<lambda>p. f (snd p)) (enumerate i xs) = map f xs"
proof -
  have "map (\<lambda>p. f (snd p)) (enumerate i xs) = map f (map snd (enumerate i xs))"
    by (simp only: map_map comp_def)
  also have "\<dots> = map f xs"
    by (simp only: map_snd_enumerate)
  finally show ?thesis .
qed

lemma createdNode_fields:
  "node_id (createdNode large m len st p) = toString large (addInt m (int (fst p)))"
  "markdownPath (data (createdNode large m len st p)) = workflowPath (snd p)"
  "isOrphaned (createdNode large m len st p) = Some False"
  "position (createdNode large m len st p) = calculateGridPosition (len + 2 * fst p - st) 250 200"
  by (simp_all add: createdNode_def newNode_def)

lemma created_ids:
  "map node_id (map (createdNode large m len st) (enumerate i fs)) =
     map (\<lambda>k. toString large (addInt m (int k))) [i..<i + length fs]"
  using map_enumerate_fst [of "\<lambda>k. toString large (addInt m (int k))" i fs]
  by (simp add: comp_def createdNode_fields)

lemma created_paths:
  "map (\<lambda>n. markdownPath (data n)) (map (createdNode large m len st) (enumerate i fs)) =
     map workflowPath fs"
  using map_enumerate_snd [of workflowPath i fs]
  by (simp add: comp_def createdNode_fields)

lemma created_positions:
  "map position (map (createdNode large m len 0) (enumerate 0 fs)) =
     map (\<lambda>k. calculateGridPosition (len + 2 * k) 250 200) [0..<length fs]"
  using map_enumerate_fst [of "\<lambda>k. calculateGridPosition (len + 2 * k) 250 200" 0 fs]
  by (simp add: comp_def createdNode_fields)

lemma drop_mergedNodes:
  "drop (length ns) (mergedNodes large files ns) =
     map (createdNode large (nextNodeIdOf ns) (length ns) 0) (enumerate 0 (newFilesOf files ns))"
  by (simp add: mergedNodes_eq markOrphaned_length)

lemma take_mergedNodes:
  "take (length ns) (mergedNodes large files ns) = markOrphaned files ns"
  by (simp add: mergedNodes_eq markOrphaned_length)

lemma mergedNodes_new_ids:
  "map node_id (drop (length ns) (mergedNodes large files ns)) =
     map (\<lambda>k. toString large (addInt (nextNodeIdOf ns) (int k))) [0..<length (newFilesOf files ns)]"
  "map (\<lambda>n. markdownPath (data n)) (drop (length ns) (mergedNodes large files ns)) =
     map workflowPath (newFilesOf files ns)"
  using created_ids [of large "nextNodeIdOf ns" "length ns" 0 0 "newFilesOf files ns"]
  by (simp_all only: drop_mergedNodes created_paths add_0)

subsection \<open>Availability, idempotence and distinct ids of the merged nodes\<close>

lemma mergedNodes_availability:
  assumes "n \<in> set (mergedNodes large files ns)"
  shows "isOrphaned n = Some (markdownPath (data n) \<notin> set (map workflowPath files))"
proof -
  from assms consider
      (old) "n \<in> set (markOrphaned files ns)"
    | (new) "n \<in> set (map (createdNode large (nextNodeIdOf ns) (length ns) 0) (enumerate 0 (newFilesOf files ns)))"
    by (auto simp: mergedNodes_eq)
  then show ?thesis
  proof cases
    case old
    then show ?thesis by (auto simp: markOrphaned_def)
  next
    case new
    then obtain p where p: "p \<in> set (enumerate 0 (newFilesOf files ns))"
      and n: "n = createdNode large (nextNodeIdOf ns) (length ns) 0 p" by auto
    from p have "snd p \<in> snd ` set (enumerate 0 (newFilesOf files ns))"
      by (rule imageI)
    then have "snd p \<in> set (map snd (enumerate 0 (newFilesOf files ns)))"
      by (simp only: set_map)
    then have "snd p \<in> set (newFilesOf files ns)"
      by (simp only: map_snd_enumerate)
    then have "snd p \<in> set files" by (simp add: newFilesOf_def)
    then show ?thesis by (simp add: n createdNode_fields)
  qed
qed

lemma mergedNodes_new_available:
  assumes "n \<in> set (drop (length ns) (mergedNodes large files ns))"
  shows "isOrphaned n = Some False"
  using assms by (auto simp: drop_mergedNodes createdNode_fields)

lemma markOrphaned_fixed:
  assumes "\<forall>n \<in> set ns. isOrphaned n = Some (markdownPath (data n) \<notin> set (map workflowPath files))"
  shows "markOrphaned files ns = ns"
  unfolding markOrphaned_def
proof (rule map_idI)
  fix n assume "n \<in> set ns"
  with assms have "isOrphaned n = Some (markdownPath (data n) \<notin> set (map workflowPath files))"
    by blast
  then show "n\<lparr>isOrphaned := Some (markdownPath (data n) \<notin> set (map workflowPath files))\<rparr> = n"
    by (metis NodeState.surjective NodeState.update_convs(8) old.unit.exhaust)
qed

lemma mergedNodes_paths:
  "map (\<lambda>n. markdownPath (data n)) (mergedNodes large files ns) =
     map (\<lambda>n. markdownPath (data n)) ns @ map workflowPath (newFilesOf files ns)"
  by (simp only: mergedNodes_eq map_append markOrphaned_paths created_paths)

lemma newFilesOf_mergedNodes: "newFilesOf files (mergedNodes large files ns) = []"
proof -
  have "workflowPath f \<in> set (map (\<lambda>n. markdownPath (data n)) (mergedNodes large files ns))"
    if "f \<in> set files" for f
  proof (cases "workflowPath f \<in> set (map (\<lambda>n. markdownPath (data n)) ns)")
    case True
    then show ?thesis unfolding mergedNodes_paths by simp
  next
    case False
    with that have "f \<in> set (newFilesOf files ns)" by (simp add: newFilesOf_def)
    then show ?thesis unfolding mergedNodes_paths by simp
  qed
  then show ?thesis
    unfolding newFilesOf_def by (simp add: filter_empty_conv)
qed

lemma mergedNodes_idem:
  "mergedNodes large' files (mergedNodes large files ns) = mergedNodes large files ns"
proof -
  have "markOrphaned files (mergedNodes large files ns) = mergedNodes large files ns"
    using mergedNodes_availability by (intro markOrphaned_fixed) blast
  then show ?thesis
    using mergedNodes_eq [of large' files "mergedNodes large files ns"]
    by (simp add: newFilesOf_mergedNodes)
qed

lemma safe_new_ids:
  assumes "safeIds ns (length (newFilesOf files ns))"
  shows "\<exists>m. isNextId ns m \<and>
           map node_id (drop (length ns) (mergedNodes large files ns)) =
             map (\<lambda>k. showInt (m + int k)) [0..<length (newFilesOf files ns)] \<and>
           (\<forall>k < length (newFilesOf files ns). \<bar>m + int k\<bar> \<le> 2 ^ 53)"
proof -
  let ?c = "length (newFilesOf files ns)"
  from next_id_safe [OF assms] obtain m where m: "isNextId ns m"
    and a: "\<forall>k < ?c. addInt (nextNodeIdOf ns) (int k) = Fin (m + int k) \<and> \<bar>m + int k\<bar> \<le> 2 ^ 53"
    by blast
  have "\<forall>k \<in> set [0..<?c]. toString large (addInt (nextNodeIdOf ns) (int k)) = showInt (m + int k)"
    using a by (simp add: toString_safe)
  then have "map (\<lambda>k. toString large (addInt (nextNodeIdOf ns) (int k))) [0..<?c] =
             map (\<lambda>k. showInt (m + int k)) [0..<?c]"
    unfolding map_eq_conv .
  then have "map node_id (drop (length ns) (mergedNodes large files ns)) =
             map (\<lambda>k. showInt (m + int k)) [0..<?c]"
    by (simp only: mergedNodes_new_ids(1))
  with m a show ?thesis by blast
qed

lemma mergedNodes_distinct:
  assumes "distinct (map node_id ns)" and "safeIds ns (length (newFilesOf files ns))"
  shows "distinct (map node_id (mergedNodes large files ns))"
proof -
  let ?c = "length (newFilesOf files ns)"
  from safe_new_ids [OF assms(2), of large] obtain m where m: "isNextId ns m"
    and new: "map node_id (drop (length ns) (mergedNodes large files ns)) =
                map (\<lambda>k. showInt (m + int k)) [0..<?c]"
    and b: "\<forall>k < ?c. \<bar>m + int k\<bar> \<le> 2 ^ 53"
    by blast
  let ?new = "map (\<lambda>k. showInt (m + int k)) [0..<?c]"
  have "map node_id (mergedNodes large files ns) =
          map node_id (take (length ns) (mergedNodes large files ns)) @
          map node_id (drop (length ns) (mergedNodes large files ns))"
    by (simp only: map_append [symmetric] append_take_drop_id)
  then have ids: "map node_id (mergedNodes large files ns) = map node_id ns @ ?new"
    by (simp only: take_mergedNodes markOrphaned_ids new)
  have "inj_on (\<lambda>k. showInt (m + int k)) (set [0..<?c])"
  proof (rule inj_onI)
    fix j k
    assume j: "j \<in> set [0..<?c]" and k: "k \<in> set [0..<?c]"
      and eq: "showInt (m + int j) = showInt (m + int k)"
    from j k b have "\<bar>m + int j\<bar> \<le> 2 ^ 53" "\<bar>m + int k\<bar> \<le> 2 ^ 53" by simp_all
    from showInt_inj [OF this eq] show "j = k" by simp
  qed
  then have d: "distinct ?new" by (simp add: distinct_map)
  have "set (map node_id ns) \<inter> set ?new = {}"
  proof (rule ccontr)
    assume "set (map node_id ns) \<inter> set ?new \<noteq> {}"
    then obtain n k where n: "n \<in> set ns" and k: "k < ?c"
      and eq: "node_id n = showInt (m + int k)" by auto
    from k b have "\<bar>m + int k\<bar> \<le> 2 ^ 53" by simp
    then have "parseInt (node_id n) = Some (Fin (m + int k))"
      by (simp add: eq parseInt_showInt roundDouble_safe)
    moreover have "\<forall>n \<in> set ns. case parseInt (node_id n) of None \<Rightarrow> True
                     | Some x \<Rightarrow> lessNumber x (Fin m)"
      using m by (simp add: isNextId_def)
    ultimately have "lessNumber (Fin (m + int k)) (Fin m)" using n by fastforce
    then show False by simp
  qed
  with assms(1) d show ?thesis unfolding ids by simp
qed

subsection \<open>Reconciliation\<close>

lemma initialize_not_failed:
  assumes "\<not> isl (fst (initializeWorkflowState e s))"
  shows "nodes (snd (initializeWorkflowState e s)) =
           mergedNodes (largeToString e) (enumerateMarkdownFiles (files_response e)) (configNodes e)"
    and "edges (snd (initializeWorkflowState e s)) = configEdges e"
proof -
  have "initializeWorkflowState e s =
      (Inr (projr (fst (initializeWorkflowState e s))), snd (initializeWorkflowState e s))"
    using assms by (simp add: prod_eq_iff)
  then obtain r s' where rs: "initializeWorkflowState e s = (Inr r, s')" by blast
  from initialize_success [OF rs] rs
  show "nodes (snd (initializeWorkflowState e s)) =
           mergedNodes (largeToString e) (enumerateMarkdownFiles (files_response e)) (configNodes e)"
    and "edges (snd (initializeWorkflowState e s)) = configEdges e"
    by simp_all
qed

lemma enumerate_Ok: "files_response e = Ok D \<Longrightarrow> enumerateMarkdownFiles (files_response e) = D"
  by (simp add: enumerateMarkdownFiles_def)

text \<open>
  C3. After a reconciliation with the listing \<open>D\<close>, every node of the resulting state has
  \<open>isOrphaned\<close> equal to "the path of its document is not \<open>/workflows/\<close> followed by a
  file name of \<open>D\<close>", and the nodes created in that run are not orphaned. This holds for
  \<open>reEnumerateMarkdownFiles\<close>, and for \<open>initializeWorkflowState\<close> when it returns a graph.
\<close>

theorem availability_after_reconciliation:
  assumes "files_response e = Ok D"
  shows "(\<not> isl (fst (initializeWorkflowState e s)) \<longrightarrow>
            (\<forall>n \<in> set (nodes (snd (initializeWorkflowState e s))).
               isOrphaned n = Some (markdownPath (data n) \<notin> set (map workflowPath D))) \<and>
            (\<forall>n \<in> set (drop (length (configNodes e)) (nodes (snd (initializeWorkflowState e s)))).
               isOrphaned n = Some False)) \<and>
         (\<forall>n \<in> set (nodes (snd (reEnumerateMarkdownFiles e s))).
            isOrphaned n = Some (markdownPath (data n) \<notin> set (map workflowPath D))) \<and>
         (\<forall>n \<in> set (drop (length (nodes s)) (nodes (snd (reEnumerateMarkdownFiles e s)))).
            isOrphaned n = Some False)"
proof -
  note D = enumerate_Ok [OF assms]
  have "\<forall>n \<in> set (nodes (snd (initializeWorkflowState e s))).
               isOrphaned n = Some (markdownPath (data n) \<notin> set (map workflowPath D))"
    if "\<not> isl (fst (initializeWorkflowState e s))"
    using initialize_not_failed(1) [OF that] mergedNodes_availability [of _ "largeToString e" D "configNodes e"]
    by (simp only: D) blast
  moreover have "\<forall>n \<in> set (drop (length (configNodes e)) (nodes (snd (initializeWorkflowState e s)))).
               isOrphaned n = Some False"
    if "\<not> isl (fst (initializeWorkflowState e s))"
    using initialize_not_failed(1) [OF that] mergedNodes_new_available [of _ "configNodes e" "largeToString e" D]
    by (simp only: D) blast
  moreover have "\<forall>n \<in> set (nodes (snd (reEnumerateMarkdownFiles e s))).
            isOrphaned n = Some (markdownPath (data n) \<notin> set (map workflowPath D))"
    using mergedNodes_availability [of _ "largeToString e" D "nodes s"]
    by (simp only: reEnumerate_nodes D) blast
  moreover have "\<forall>n \<in> set (drop (length (nodes s)) (nodes (snd (reEnumerateMarkdownFiles e s)))).
            isOrphaned n = Some False"
    using mergedNodes_new_available [of _ "nodes s" "largeToString e" D]
    by (simp only: reEnumerate_nodes D) blast
  ultimately show ?thesis by blast
qed

lemma rescan_not_failed: "\<not> isl (fst (initializeWorkflowState env_rescan collapsed_state))"
  by (simp add: initialize_cases env_rescan_def isOk_def Let_def)

theorem availability_after_reconciliation_witness:
  "files_response env_rescan = Ok [''y.md'', ''z.md''] \<and>
   \<not> isl (fst (initializeWorkflowState env_rescan collapsed_state)) \<and>
   list_all (\<lambda>n. isOrphaned n = Some (markdownPath (data n) \<notin> set (map workflowPath [''y.md'', ''z.md''])))
     (nodes (snd (initializeWorkflowState env_rescan collapsed_state))) \<and>
   list_all (\<lambda>n. isOrphaned n = Some (markdownPath (data n) \<notin> set (map workflowPath [''y.md'', ''z.md''])))
     (nodes (snd (reEnumerateMarkdownFiles env_rescan collapsed_state))) \<and>
   list_all (\<lambda>n. isOrphaned n = Some False)
     (drop (length (nodes collapsed_state))
        (nodes (snd (reEnumerateMarkdownFiles env_rescan collapsed_state))))"
proof -
  have h: "files_response env_rescan = Ok [''y.md'', ''z.md'']"
    by (simp add: env_rescan_def)
  from availability_after_reconciliation [OF h, of collapsed_state] h rescan_not_failed
  show ?thesis unfolding list_all_iff by blast
qed

text \<open>
  C4. Reconciliation is idempotent. If \<open>initializeWorkflowState\<close> returns a graph and
  runs again on the state it produced as the config, with the same listing, then it returns
  the same graph and the same nodes and edges (whatever the answer to a write, for none is
  made). A second \<open>reEnumerateMarkdownFiles\<close> with the same listing leaves nodes and edges of
  the state as the first left them.
\<close>

theorem reconciliation_idempotent:
  assumes "files_response e2 = files_response e"
  shows "(\<forall>r s1. initializeWorkflowState e s = (Inr r, s1) \<and> config_response e2 = Ok s1 \<longrightarrow>
            (\<exists>s2. initializeWorkflowState e2 t = (Inr r, s2) \<and>
                  nodes s2 = nodes s1 \<and> edges s2 = edges s1)) \<and>
         nodes (snd (reEnumerateMarkdownFiles e2 (snd (reEnumerateMarkdownFiles e s)))) =
           nodes (snd (reEnumerateMarkdownFiles e s)) \<and>
         edges (snd (reEnumerateMarkdownFiles e2 (snd (reEnumerateMarkdownFiles e s)))) =
           edges (snd (reEnumerateMarkdownFiles e s))"
proof -
  let ?files = "enumerateMarkdownFiles (files_response e)"
  have "\<exists>s2. initializeWorkflowState e2 t = (Inr r, s2) \<and> nodes s2 = nodes s1 \<and> edges s2 = edges s1"
    if run: "initializeWorkflowState e s = (Inr r, s1)" and cfg: "config_response e2 = Ok s1" for r s1
  proof -
    note first = initialize_success [OF run]
    have cn: "configNodes e2 = nodes s1" and ce: "configEdges e2 = edges s1"
      using cfg by (simp_all add: configNodes_def configEdges_def loadWorkflowConfig_def)
    have m: "mergedNodes (largeToString e2) ?files (nodes s1) = nodes s1"
      unfolding first(1) by (rule mergedNodes_idem)
    have nf: "newFilesOf ?files (nodes s1) = []"
      unfolding first(1) by (rule newFilesOf_mergedNodes)
    let ?s2 = "\<lparr>nodes = nodes s1, edges = edges s1, lastSaved = now e2, version = ''1.0.0''\<rparr>"
    have "initializeWorkflowState e2 t = (Inr (toReactFlowNodes ?s2, edges ?s2), ?s2)"
      by (simp add: initialize_cases [of e2 t] assms cn ce m nf Let_def)
    moreover have "toReactFlowNodes ?s2 = toReactFlowNodes s1"
      by (simp add: toReactFlowNodes_def)
    ultimately show ?thesis using first(3) by simp
  qed
  moreover have "nodes (snd (reEnumerateMarkdownFiles e2 (snd (reEnumerateMarkdownFiles e s)))) =
           nodes (snd (reEnumerateMarkdownFiles e s))"
    by (simp add: reEnumerate_nodes assms mergedNodes_idem)
  moreover have "edges (snd (reEnumerateMarkdownFiles e2 (snd (reEnumerateMarkdownFiles e s)))) =
           edges (snd (reEnumerateMarkdownFiles e s))"
    by (simp add: reEnumerate_nodes)
  ultimately show ?thesis by blast
qed

theorem reconciliation_idempotent_witness:
  "files_response env_second = files_response env_rescan \<and>
   initializeWorkflowState env_rescan collapsed_state =
     (Inr (projr (fst (initializeWorkflowState env_rescan collapsed_state))),
      snd (initializeWorkflowState env_rescan collapsed_state)) \<and>
   config_response env_second = Ok (snd (initializeWorkflowState env_rescan collapsed_state)) \<and>
   (\<exists>s2. initializeWorkflowState env_second initial_state =
            (Inr (projr (fst (initializeWorkflowState env_rescan collapsed_state))), s2) \<and>
         nodes s2 = nodes (snd (initializeWorkflowState env_rescan collapsed_state)) \<and>
         edges s2 = edges (snd (initializeWorkflowState env_rescan collapsed_state))) \<and>
   nodes (snd (reEnumerateMarkdownFiles env_second (snd (reEnumerateMarkdownFiles env_rescan collapsed_state)))) =
     nodes (snd (reEnumerateMarkdownFiles env_rescan collapsed_state))"
proof -
  have h: "files_response env_second = files_response env_rescan"
    by (simp add: env_second_def)
  have c: "config_response env_second = Ok (snd (initializeWorkflowState env_rescan collapsed_state))"
    by (simp add: env_second_def)
  have r: "initializeWorkflowState env_rescan collapsed_state =
     (Inr (projr (fst (initializeWorkflowState env_rescan collapsed_state))),
      snd (initializeWorkflowState env_rescan collapsed_state))"
    using rescan_not_failed by (simp add: prod_eq_iff)
  from reconciliation_idempotent [OF h, of collapsed_state initial_state] h c r
  show ?thesis by blast
qed

text \<open>
  C5, amended. When the write fails, the error is rethrown to the caller and no graph is
  returned. \<open>initializeWorkflowState\<close> writes only if there are new files, and on the
  failure leaves the state of the manager as it was before the call;
  \<open>reEnumerateMarkdownFiles\<close> always writes, and on the failure the state of the manager
  already holds the merged nodes and the new time stamp.
\<close>

theorem save_failure_surfaced:
  assumes "\<not> isOk (save_response e)"
  shows "(newFilesOf (enumerateMarkdownFiles (files_response e)) (configNodes e) \<noteq> [] \<longrightarrow>
            (\<exists>msg. initializeWorkflowState e s = (Inl (SaveFailed msg), s))) \<and>
         (\<exists>msg. reEnumerateMarkdownFiles e s =
            (Inl (SaveFailed msg),
             s\<lparr>nodes := mergedNodes (largeToString e) (enumerateMarkdownFiles (files_response e)) (nodes s),
               lastSaved := now e\<rparr>))"
proof -
  have "\<exists>msg. initializeWorkflowState e s = (Inl (SaveFailed msg), s)"
    if "newFilesOf (enumerateMarkdownFiles (files_response e)) (configNodes e) \<noteq> []"
    using that assms by (cases "save_response e") (simp_all add: initialize_cases Let_def isOk_def)
  moreover have "\<exists>msg. reEnumerateMarkdownFiles e s =
            (Inl (SaveFailed msg),
             s\<lparr>nodes := mergedNodes (largeToString e) (enumerateMarkdownFiles (files_response e)) (nodes s),
               lastSaved := now e\<rparr>)"
    using assms
    by (cases "save_response e")
      (simp_all add: reEnumerateMarkdownFiles_def mergedNodes_def saveWorkflowConfig_def Let_def isOk_def)
  ultimately show ?thesis by blast
qed

theorem save_failure_surfaced_witness:
  "\<not> isOk (save_response env_save_down) \<and>
   newFilesOf (enumerateMarkdownFiles (files_response env_save_down)) (configNodes env_save_down) \<noteq> [] \<and>
   (\<exists>msg. initializeWorkflowState env_save_down initial_state = (Inl (SaveFailed msg), initial_state)) \<and>
   (\<exists>msg. reEnumerateMarkdownFiles env_save_down initial_state =
      (Inl (SaveFailed msg),
       initial_state\<lparr>nodes := mergedNodes (largeToString env_save_down) (enumerateMarkdownFiles (files_response env_save_down))
                                (nodes initial_state),
                     lastSaved := now env_save_down\<rparr>))"
proof -
  have h: "\<not> isOk (save_response env_save_down)"
    by (simp add: env_save_down_def isOk_def)
  have n: "newFilesOf (enumerateMarkdownFiles (files_response env_save_down)) (configNodes env_save_down) \<noteq> []"
    by (simp add: env_save_down_def enumerateMarkdownFiles_def configNodes_def loadWorkflowConfig_def
        newFilesOf_def)
  from save_failure_surfaced [OF h, of initial_state] h n show ?thesis by blast
qed

subsection \<open>The ids of the new nodes\<close>

lemma parse_large_ids:
  "parseInt ''9007199254740992'' = Some (Fin 9007199254740992)"
  "parseInt ''9007199254740991'' = Some (Fin 9007199254740991)"
  by (simp_all add: parseInt_def parseDigits_def radixValue_def digitValue_def isWhiteSpace_def
      roundDouble_def Let_def)

lemma bitLength_above_2_53: "bitLength 9007199254740993 = 54"
  by (simp add: bitLength.simps)

lemma round_above_2_53: "roundDouble 9007199254740993 = Fin 9007199254740992"
  by (simp add: roundDouble_def bitLength_above_2_53 Let_def)

lemma digitChars:
  "digitChar 0 = CHR ''0''" "digitChar 1 = CHR ''1''" "digitChar 2 = CHR ''2''"
  "digitChar 3 = CHR ''3''" "digitChar 4 = CHR ''4''" "digitChar 5 = CHR ''5''"
  "digitChar 6 = CHR ''6''" "digitChar 7 = CHR ''7''" "digitChar 8 = CHR ''8''"
  "digitChar 9 = CHR ''9''" "digitChar (Suc 0) = CHR ''1''"
  by code_simp+

lemma decimal_large:
  "decimal 9007199254740992 = ''9007199254740992''"
  "decimal 9007199254740991 = ''9007199254740991''"
  by (simp_all add: decimal.simps digitChars)

lemma show_large_ids:
  "showInt 9007199254740992 = ''9007199254740992''"
  "showInt 9007199254740991 = ''9007199254740991''"
  by (simp_all add: showInt_def decimal_large)

lemma large_id_run:
  "map node_id (nodes (snd (reEnumerateMarkdownFiles env_one_new state_id_2_53))) =
     [''9007199254740992'', ''9007199254740992'']"
  "map node_id (nodes (snd (initializeWorkflowState env_one_new initial_state))) =
     [''9007199254740992'', ''9007199254740992'']"
  "map node_id (nodes (snd (reEnumerateMarkdownFiles env_two_new state_id_below_2_53))) =
     [''9007199254740991'', ''9007199254740992'', ''9007199254740992'']"
  "map node_id (nodes (snd (initializeWorkflowState env_two_new initial_state))) =
     [''9007199254740991'', ''9007199254740992'', ''9007199254740992'']"
  by (simp_all add: reEnumerateMarkdownFiles_def initializeWorkflowState_def env_one_new_def
      env_two_new_def state_id_2_53_def state_id_below_2_53_def sample_state_def sample_node_def
      initial_state_def loadWorkflowConfig_def enumerateMarkdownFiles_def saveWorkflowConfig_def
      markOrphaned_def newFilesOf_def workflowPath_def newNode_def nextNodeIdOf_def
      existingIds_def List.map_filter_simps Math_max_def maxNumber_def addInt_def toString_def
      roundDouble_safe round_above_2_53 parse_large_ids show_large_ids Let_def)

text \<open>
  C7, as stated, fails: the ids are computed on doubles. From the one existing id
  \<open>9007199254740991\<close>, that is \<open>2^53 - 1\<close>, the first of two new nodes gets the next
  integer \<open>2^53\<close>, and so does the second, for \<open>2^53 + 1\<close> is no double and rounds to
  \<open>2^53\<close>: the ids of a batch are not consecutive.
\<close>

theorem new_node_ids_counterexample:
  "isNextId (nodes state_id_below_2_53) 9007199254740992 \<and>
   map node_id (drop 1 (nodes (snd (reEnumerateMarkdownFiles env_two_new state_id_below_2_53)))) =
     [''9007199254740992'', ''9007199254740992''] \<and>
   map node_id (drop 1 (nodes (snd (initializeWorkflowState env_two_new initial_state)))) =
     [''9007199254740992'', ''9007199254740992'']"
proof -
  have "isNextId (nodes state_id_below_2_53) 9007199254740992"
    by (simp add: isNextId_def state_id_below_2_53_def sample_state_def parse_large_ids)
  moreover have
    "map node_id (drop 1 (nodes (snd (reEnumerateMarkdownFiles env_two_new state_id_below_2_53)))) =
       drop 1 (map node_id (nodes (snd (reEnumerateMarkdownFiles env_two_new state_id_below_2_53))))"
    "map node_id (drop 1 (nodes (snd (initializeWorkflowState env_two_new initial_state)))) =
       drop 1 (map node_id (nodes (snd (initializeWorkflowState env_two_new initial_state))))"
    by (simp_all only: drop_map)
  ultimately show ?thesis by (simp add: large_id_run)
qed

text \<open>
  C7, amended. Let every existing id that \<open>parseInt\<close> reads as a number be a finite
  integer whose absolute value, increased by the number of new files, is at most \<open>2^53\<close>.
  Then the new nodes of a reconciliation follow the existing ones; the \<open>k\<close>-th of them
  has as id the digits of \<open>m + k\<close>, where \<open>m\<close> is the next integer after the greatest id
  that parses as a number (1 if none does), and stands for the \<open>k\<close>-th new file in the
  order of the listing.
\<close>

theorem new_node_ids:
  "(safeIds (nodes s) (length (newFilesOf (enumerateMarkdownFiles (files_response e)) (nodes s))) \<longrightarrow>
      (\<exists>m. isNextId (nodes s) m \<and>
        map node_id (drop (length (nodes s)) (nodes (snd (reEnumerateMarkdownFiles e s)))) =
          map (\<lambda>k. showInt (m + int k))
            [0..<length (newFilesOf (enumerateMarkdownFiles (files_response e)) (nodes s))] \<and>
        map (\<lambda>n. markdownPath (data n))
            (drop (length (nodes s)) (nodes (snd (reEnumerateMarkdownFiles e s)))) =
          map workflowPath (newFilesOf (enumerateMarkdownFiles (files_response e)) (nodes s)))) \<and>
   (safeIds (configNodes e)
        (length (newFilesOf (enumerateMarkdownFiles (files_response e)) (configNodes e))) \<and>
    \<not> isl (fst (initializeWorkflowState e s)) \<longrightarrow>
      (\<exists>m. isNextId (configNodes e) m \<and>
        map node_id (drop (length (configNodes e)) (nodes (snd (initializeWorkflowState e s)))) =
          map (\<lambda>k. showInt (m + int k))
            [0..<length (newFilesOf (enumerateMarkdownFiles (files_response e)) (configNodes e))] \<and>
        map (\<lambda>n. markdownPath (data n))
            (drop (length (configNodes e)) (nodes (snd (initializeWorkflowState e s)))) =
          map workflowPath (newFilesOf (enumerateMarkdownFiles (files_response e)) (configNodes e))))"
proof -
  let ?files = "enumerateMarkdownFiles (files_response e)"
  have gen: "\<exists>m. isNextId ns m \<and>
        map node_id (drop (length ns) (mergedNodes (largeToString e) ?files ns)) =
          map (\<lambda>k. showInt (m + int k)) [0..<length (newFilesOf ?files ns)] \<and>
        map (\<lambda>n. markdownPath (data n)) (drop (length ns) (mergedNodes (largeToString e) ?files ns)) =
          map workflowPath (newFilesOf ?files ns)"
    if "safeIds ns (length (newFilesOf ?files ns))" for ns
    using safe_new_ids [OF that, of "largeToString e"]
      mergedNodes_new_ids(2) [of ns "largeToString e" ?files] by blast
  have "\<exists>m. isNextId (nodes s) m \<and>
        map node_id (drop (length (nodes s)) (nodes (snd (reEnumerateMarkdownFiles e s)))) =
          map (\<lambda>k. showInt (m + int k)) [0..<length (newFilesOf ?files (nodes s))] \<and>
        map (\<lambda>n. markdownPath (data n))
            (drop (length (nodes s)) (nodes (snd (reEnumerateMarkdownFiles e s)))) =
          map workflowPath (newFilesOf ?files (nodes s))"
    if "safeIds (nodes s) (length (newFilesOf ?files (nodes s)))"
    unfolding reEnumerate_nodes using that by (rule gen)
  moreover have "\<exists>m. isNextId (configNodes e) m \<and>
        map node_id (drop (length (configNodes e)) (nodes (snd (initializeWorkflowState e s)))) =
          map (\<lambda>k. showInt (m + int k)) [0..<length (newFilesOf ?files (configNodes e))] \<and>
        map (\<lambda>n. markdownPath (data n))
            (drop (length (configNodes e)) (nodes (snd (initializeWorkflowState e s)))) =
          map workflowPath (newFilesOf ?files (configNodes e))"
    if "safeIds (configNodes e) (length (newFilesOf ?files (configNodes e)))"
      and "\<not> isl (fst (initializeWorkflowState e s))"
    unfolding initialize_not_failed(1) [OF that(2)] using that(1) by (rule gen)
  ultimately show ?thesis by blast
qed

lemma isNextId_unique: "isNextId ns m \<Longrightarrow> isNextId ns m' \<Longrightarrow> m = m'"
  unfolding isNextId_def by (fastforce split: if_splits option.splits)

lemma rescan_facts:
  "isNextId (nodes collapsed_state) 3"
  "configNodes env_rescan = nodes collapsed_state"
  "enumerateMarkdownFiles (files_response env_rescan) = [''y.md'', ''z.md'']"
  "newFilesOf [''y.md'', ''z.md''] (nodes collapsed_state) = [''z.md'']"
  "length (nodes collapsed_state) = 2"
  "safeIds (nodes collapsed_state) (Suc 0)"
  by (simp_all add: isNextId_def safeIds_def collapsed_state_def sample_node_def collapsed_node_def
      parseInt_def parseDigits_def radixValue_def digitValue_def isWhiteSpace_def Let_def
      roundDouble_def configNodes_def env_rescan_def loadWorkflowConfig_def
      enumerateMarkdownFiles_def newFilesOf_def workflowPath_def)

theorem new_node_ids_witness:
  "safeIds (nodes collapsed_state) 1 \<and>
   isNextId (nodes collapsed_state) 3 \<and>
   \<not> isl (fst (initializeWorkflowState env_rescan collapsed_state)) \<and>
   map node_id (drop 2 (nodes (snd (reEnumerateMarkdownFiles env_rescan collapsed_state)))) = [''3''] \<and>
   map node_id (drop 2 (nodes (snd (initializeWorkflowState env_rescan collapsed_state)))) = [''3'']"
proof -
  have t: "showInt 3 = ''3''"
    by code_simp
  have s1: "safeIds (nodes collapsed_state) 1"
    using rescan_facts(6) by simp
  from new_node_ids [of collapsed_state env_rescan] rescan_not_failed rescan_facts(6)
  obtain m m' where
    m: "isNextId (nodes collapsed_state) m"
      "map node_id (drop 2 (nodes (snd (reEnumerateMarkdownFiles env_rescan collapsed_state)))) =
         map (\<lambda>k. showInt (m + int k)) [0..<1]"
    and m': "isNextId (nodes collapsed_state) m'"
      "map node_id (drop 2 (nodes (snd (initializeWorkflowState env_rescan collapsed_state)))) =
         map (\<lambda>k. showInt (m' + int k)) [0..<1]"
    unfolding rescan_facts by auto
  have "m = 3" "m' = 3"
    using m(1) m'(1) rescan_facts(1) by (auto dest: isNextId_unique)
  with m(2) m'(2) t rescan_facts(1) s1 rescan_not_failed show ?thesis by simp
qed

text \<open>
  C8, as stated, fails: the one existing node has the id \<open>9007199254740992\<close>, that is
  \<open>2^53\<close>; the next id \<open>2^53 + 1\<close> is no double and rounds to \<open>2^53\<close>, so the node
  created for the one new file gets the id the existing node has.
\<close>

theorem ids_stay_distinct_counterexample:
  "distinct (map node_id (nodes state_id_2_53)) \<and>
   map node_id (nodes (snd (reEnumerateMarkdownFiles env_one_new state_id_2_53))) =
     [''9007199254740992'', ''9007199254740992''] \<and>
   \<not> distinct (map node_id (nodes (snd (reEnumerateMarkdownFiles env_one_new state_id_2_53)))) \<and>
   \<not> distinct (map node_id (nodes (snd (initializeWorkflowState env_one_new initial_state))))"
proof -
  have "distinct (map node_id (nodes state_id_2_53))"
    by (simp add: state_id_2_53_def sample_state_def)
  then show ?thesis by (simp add: large_id_run)
qed

text \<open>
  C8, amended. Let every existing id that \<open>parseInt\<close> reads as a number be a finite
  integer whose absolute value, increased by the number of new files, is at most \<open>2^53\<close>.
  If the node ids are pairwise distinct before a reconciliation, they are pairwise distinct
  after it.
\<close>

theorem ids_stay_distinct:
  "(distinct (map node_id (nodes s)) \<and>
    safeIds (nodes s) (length (newFilesOf (enumerateMarkdownFiles (files_response e)) (nodes s))) \<longrightarrow>
      distinct (map node_id (nodes (snd (reEnumerateMarkdownFiles e s))))) \<and>
   (distinct (map node_id (configNodes e)) \<and>
    safeIds (configNodes e)
      (length (newFilesOf (enumerateMarkdownFiles (files_response e)) (configNodes e))) \<and>
    \<not> isl (fst (initializeWorkflowState e s)) \<longrightarrow>
      distinct (map node_id (nodes (snd (initializeWorkflowState e s)))))"
proof -
  have "distinct (map node_id (nodes (snd (reEnumerateMarkdownFiles e s))))"
    if "distinct (map node_id (nodes s))"
      "safeIds (nodes s) (length (newFilesOf (enumerateMarkdownFiles (files_response e)) (nodes s)))"
    unfolding reEnumerate_nodes using that by (rule mergedNodes_distinct)
  moreover have "distinct (map node_id (nodes (snd (initializeWorkflowState e s))))"
    if "distinct (map node_id (configNodes e))"
      "safeIds (configNodes e)
         (length (newFilesOf (enumerateMarkdownFiles (files_response e)) (configNodes e)))"
      "\<not> isl (fst (initializeWorkflowState e s))"
    unfolding initialize_not_failed(1) [OF that(3)] using that(1,2) by (rule mergedNodes_distinct)
  ultimately show ?thesis by blast
qed

theorem ids_stay_distinct_witness:
  "distinct (map node_id (nodes collapsed_state)) \<and>
   distinct (map node_id (configNodes env_rescan)) \<and>
   safeIds (nodes collapsed_state)
     (length (newFilesOf (enumerateMarkdownFiles (files_response env_rescan)) (nodes collapsed_state))) \<and>
   \<not> isl (fst (initializeWorkflowState env_rescan collapsed_state)) \<and>
   distinct (map node_id (nodes (snd (reEnumerateMarkdownFiles env_rescan collapsed_state)))) \<and>
   distinct (map node_id (nodes (snd (initializeWorkflowState env_rescan collapsed_state))))"
proof -
  have d: "distinct (map node_id (nodes collapsed_state))"
    by (simp add: collapsed_state_def sample_node_def collapsed_node_def)
  then have d': "distinct (map node_id (configNodes env_rescan))"
    by (simp add: rescan_facts)
  have f: "safeIds (nodes collapsed_state)
     (length (newFilesOf (enumerateMarkdownFiles (files_response env_rescan)) (nodes collapsed_state)))"
    by (simp add: rescan_facts)
  then have f': "safeIds (configNodes env_rescan)
     (length (newFilesOf (enumerateMarkdownFiles (files_response env_rescan)) (configNodes env_rescan)))"
    by (simp add: rescan_facts)
  from ids_stay_distinct [of collapsed_state env_rescan] d d' f f' rescan_not_failed
  show ?thesis by blast
qed

subsection \<open>Where the loop puts the new nodes\<close>

text \<open>
  The \<open>k\<close>-th new node of a run that starts with \<open>N\<close> nodes is placed at grid index
  \<open>N + 2 * k\<close>: the length of the array has grown by \<open>k\<close> when the callback adds the
  loop index \<open>k\<close> to it.
\<close>

lemma new_node_positions:
  "map position (drop (length (nodes s)) (nodes (snd (reEnumerateMarkdownFiles e s)))) =
     map (\<lambda>k. calculateGridPosition (length (nodes s) + 2 * k) 250 200)
       [0..<length (newFilesOf (enumerateMarkdownFiles (files_response e)) (nodes s))]"
  unfolding reEnumerate_nodes drop_mergedNodes by (rule created_positions)

lemma new_node_positions_initialize:
  assumes "\<not> isl (fst (initializeWorkflowState e s))"
  shows "map position (drop (length (configNodes e)) (nodes (snd (initializeWorkflowState e s)))) =
     map (\<lambda>k. calculateGridPosition (length (configNodes e) + 2 * k) 250 200)
       [0..<length (newFilesOf (enumerateMarkdownFiles (files_response e)) (configNodes e))]"
  unfolding initialize_not_failed(1) [OF assms] drop_mergedNodes by (rule created_positions)

end
